theory Spec2Isabelle
  imports Main "HOL-Library.Char_ord" "HOL-Library.List_Lexorder" "HOL-Library.Multiset"
begin

section \<open>The document tree of yaml.go\<close>

text \<open>
  The library keeps a YAML document as a graph of \<^verbatim>\<open>Node\<close> structs. Two embeddings are
  used. The first half of this theory works on the ownership tree: a node is its own fields
  and the list of its children. The fields \<^verbatim>\<open>Parent\<close>, \<^verbatim>\<open>Key\<close> and \<^verbatim>\<open>Alias\<close> are
  non-owning pointers; the functions of yaml.go that are modelled on the tree
  (\<^verbatim>\<open>DiffNodes\<close>, \<^verbatim>\<open>MergeNodes\<close>, the conversion from the reader's nodes) never read
  them, apart from \<^verbatim>\<open>Clone\<close>, which copies \<^verbatim>\<open>Key\<close> into a node that no
  \<^verbatim>\<open>Children\<close> slice holds. The second half works on an explicit store of nodes, with the
  three pointer fields, for the operations whose effect is on shared nodes.

  Entries of \<^verbatim>\<open>Children\<close> are never nil: \<^verbatim>\<open>AddChild\<close> skips a nil child, and
  \<^verbatim>\<open>AddKeyValue\<close> and \<^verbatim>\<open>ReplaceWith\<close> dereference their arguments before storing
  them.
\<close>

datatype NodeKind = DocumentNode | MappingNode | SequenceNode | ScalarNode | AliasNode | NullNode

datatype NodeStyle = DefaultStyle | LiteralStyle | FoldedStyle | QuotedStyle
  | DoubleQuotedStyle | FlowStyle | TaggedStyle | SingleQuotedStyle

text \<open>
  The \<^verbatim>\<open>Value\<close> slot is an \<^verbatim>\<open>interface{}\<close>. The conversion from the reader stores
  nil, a bool, an int64, a float64 or a string. The code only copies the slot and prints it
  with \<^verbatim>\<open>%v\<close>; a float64 is therefore kept as the text that \<^verbatim>\<open>%v\<close> prints for it.
\<close>

datatype val = VNil | VBool bool | VInt int | VFloat string | VStr string

function show_nat :: "nat \<Rightarrow> string" where
  "show_nat n =
     (if n < 10 then [char_of (48 + n)]
      else show_nat (n div 10) @ [char_of (48 + n mod 10)])"
  by pat_completeness auto
termination
  by (relation "measure id") auto

definition show_int :: "int \<Rightarrow> string" where
  "show_int i = (if i < 0 then CHR ''-'' # show_nat (nat (- i)) else show_nat (nat i))"

text \<open>\<^verbatim>\<open>fmt.Sprintf("%v", v)\<close>\<close>

fun sprint :: "val \<Rightarrow> string" where
  "sprint VNil = ''<nil>''"
| "sprint (VBool b) = (if b then ''true'' else ''false'')"
| "sprint (VInt i) = show_int i"
| "sprint (VFloat s) = s"
| "sprint (VStr s) = s"

record node_info =
  Kind :: NodeKind
  Style :: NodeStyle
  Tag :: string
  Value :: val
  Anchor :: string
  Line :: int
  Column :: int
  HeadComment :: "string list"
  LineComment :: string
  FootComment :: "string list"
  EmptyLines :: "int list"
  Metadata :: "string \<rightharpoonup> val"

datatype node = Node (info: node_info) (children: "node list")

record Directive =
  Name :: string
  DValue :: string

record Document =
  Root :: "node option"
  Directives :: "Directive list"
  Version :: string
  Anchors :: "string \<rightharpoonup> node"

record NodeTree =
  Documents :: "Document list"
  Current :: "nat option"

text \<open>\<^verbatim>\<open>NewNodeTree\<close>, \<^verbatim>\<open>AddDocument\<close> (the new document becomes current) and
  \<^verbatim>\<open>SetRoot\<close>.\<close>

definition NewNodeTree :: NodeTree where
  "NewNodeTree = \<lparr>Documents = [], Current = None\<rparr>"

definition emptyDocument :: Document where
  "emptyDocument = \<lparr>Root = None, Directives = [], Version = [], Anchors = Map.empty\<rparr>"

definition AddDocument :: "NodeTree \<Rightarrow> Document \<Rightarrow> NodeTree" where
  "AddDocument nt doc =
     nt\<lparr>Documents := Documents nt @ [doc], Current := Some (length (Documents nt))\<rparr>"

definition NewNodeInfo :: "NodeKind \<Rightarrow> node_info" where
  "NewNodeInfo k = \<lparr>Kind = k, Style = DefaultStyle, Tag = [], Value = VNil, Anchor = [],
     Line = 0, Column = 0, HeadComment = [], LineComment = [], FootComment = [],
     EmptyLines = [], Metadata = Map.empty\<rparr>"

definition NewNode :: "NodeKind \<Rightarrow> node" where
  "NewNode k = Node (NewNodeInfo k) []"

definition NewScalarNode :: "val \<Rightarrow> node" where
  "NewScalarNode v = Node ((NewNodeInfo ScalarNode)\<lparr>Value := v\<rparr>) []"

section \<open>Go maps keyed by rendered key text\<close>

text \<open>
  A \<^verbatim>\<open>map[string]T\<close> is kept as an association list with one entry per key, in the
  order of first insertion. Go ranges over a map in an order of its own choosing; where the
  code ranges over a map, the model takes the order as a parameter \<^verbatim>\<open>rng\<close> that
  rearranges the key list.
\<close>

fun map_put :: "(string \<times> 'v) list \<Rightarrow> string \<Rightarrow> 'v \<Rightarrow> (string \<times> 'v) list" where
  "map_put [] k v = [(k, v)]"
| "map_put ((k', v') # m) k v = (if k' = k then (k, v) # m else (k', v') # map_put m k v)"

text \<open>The loop \<^verbatim>\<open>for i := 0; i < len(cs)-1; i += 2\<close> visits the pairs
  \<^verbatim>\<open>(cs[i], cs[i+1])\<close>; a last child without a partner is not visited.\<close>

fun kv_pairs :: "'a list \<Rightarrow> ('a \<times> 'a) list" where
  "kv_pairs (k # v # rest) = (k, v) # kv_pairs rest"
| "kv_pairs _ = []"

fun unpairs :: "('a \<times> 'a) list \<Rightarrow> 'a list" where
  "unpairs [] = []"
| "unpairs ((k, v) # ps) = k # v # unpairs ps"

section \<open>The diff engine\<close>

datatype DiffType = DiffNone | DiffAdded | DiffRemoved | DiffModified
  | DiffCommentChanged | DiffStyleChanged | DiffReordered

text \<open>\<^verbatim>\<open>OldValue\<close> and \<^verbatim>\<open>NewValue\<close> hold a node value, a kind, a style or a tag.\<close>

datatype dyn = DynVal val | DynKind NodeKind | DynStyle NodeStyle

record DiffResult =
  Type :: DiffType
  Path :: string
  OldValue :: dyn
  NewValue :: dyn
  OldNode :: "node option"
  NewNode :: "node option"
  OldComment :: "string list"
  NewComment :: "string list"
  Description :: string

definition diff_entry :: "DiffType \<Rightarrow> string \<Rightarrow> string \<Rightarrow> DiffResult" where
  "diff_entry t p d = \<lparr>Type = t, Path = p, OldValue = DynVal VNil, NewValue = DynVal VNil,
     OldNode = None, NewNode = None, OldComment = [], NewComment = [], Description = d\<rparr>"

definition equalStringSlices :: "string list \<Rightarrow> string list \<Rightarrow> bool" where
  "equalStringSlices a b = (length a = length b \<and> list_all (\<lambda>(v, w). v = w) (zip a b))"

text \<open>The key maps that \<^verbatim>\<open>DiffNodes\<close> builds: rendered text of each Scalar key to the
  value node, a later pair with the same text replacing the earlier one.\<close>

definition diffKeys :: "node list \<Rightarrow> (string \<times> node) list" where
  "diffKeys cs =
     fold (\<lambda>(key, v) m. if Kind (info key) = ScalarNode
                          then map_put m (sprint (Value (info key))) v else m)
          (kv_pairs cs) []"

lemma map_put_set: "map_of (map_put m k v) k' = Some x \<Longrightarrow> x = v \<or> map_of m k' = Some x"
  by (induction m) (auto split: if_splits)

lemma diffKeys_fold_set:
  "map_of (fold (\<lambda>(key, v) m. if Kind (info key) = ScalarNode
                          then map_put m (sprint (Value (info key))) v else m) ps m0) k = Some x
   \<Longrightarrow> x \<in> snd ` set ps \<or> map_of m0 k = Some x"
proof (induction ps arbitrary: m0)
  case Nil then show ?case by simp
next
  case (Cons p ps)
  obtain key v where p: "p = (key, v)" by (cases p)
  from Cons.prems Cons.IH show ?case
    by (force simp: p split: if_splits dest: map_put_set)
qed

lemma kv_pairs_snd_set: "x \<in> snd ` set (kv_pairs cs) \<Longrightarrow> x \<in> set cs"
  by (induction cs rule: kv_pairs.induct) auto

lemma diffKeys_in_children: "map_of (diffKeys cs) k = Some x \<Longrightarrow> x \<in> set cs"
  using diffKeys_fold_set[of "kv_pairs cs" "[]" k x] kv_pairs_snd_set[of x cs] by (auto simp: diffKeys_def)

lemma size_child: "x \<in> set cs \<Longrightarrow> size x < Suc (size_list size cs)"
  by (simp add: less_Suc_eq_le size_list_estimation')

function DiffNodes ::
  "(string list \<Rightarrow> string list) \<Rightarrow> node option \<Rightarrow> node option \<Rightarrow> string \<Rightarrow> DiffResult list"
where
  "DiffNodes rng None None path = []"
| "DiffNodes rng None (Some newNode) path =
     [(diff_entry DiffAdded path (''Added node at '' @ path))
        \<lparr>NewValue := DynVal (Value (info newNode)), NewNode := Some newNode\<rparr>]"
| "DiffNodes rng (Some oldNode) None path =
     [(diff_entry DiffRemoved path (''Removed node at '' @ path))
        \<lparr>OldValue := DynVal (Value (info oldNode)), OldNode := Some oldNode\<rparr>]"
| "DiffNodes rng (Some oldNode) (Some newNode) path =
     (if Kind (info oldNode) \<noteq> Kind (info newNode) then
        [(diff_entry DiffModified path (''Node type changed at '' @ path))
           \<lparr>OldValue := DynKind (Kind (info oldNode)), NewValue := DynKind (Kind (info newNode)),
            OldNode := Some oldNode, NewNode := Some newNode\<rparr>]
      else
        (if Kind (info oldNode) = ScalarNode
            \<and> sprint (Value (info oldNode)) \<noteq> sprint (Value (info newNode)) then
           [(diff_entry DiffModified path
               (''Value changed at '' @ path @ '' from '' @ [CHR 0x27]
                  @ sprint (Value (info oldNode)) @ [CHR 0x27] @ '' to '' @ [CHR 0x27]
                  @ sprint (Value (info newNode)) @ [CHR 0x27]))
              \<lparr>OldValue := DynVal (Value (info oldNode)), NewValue := DynVal (Value (info newNode)),
               OldNode := Some oldNode, NewNode := Some newNode\<rparr>]
         else [])
        @ (if Style (info oldNode) \<noteq> Style (info newNode) then
             [(diff_entry DiffStyleChanged path (''Style changed at '' @ path))
                \<lparr>OldValue := DynStyle (Style (info oldNode)),
                 NewValue := DynStyle (Style (info newNode)),
                 OldNode := Some oldNode, NewNode := Some newNode\<rparr>]
           else [])
        @ (if \<not> equalStringSlices (HeadComment (info oldNode)) (HeadComment (info newNode)) then
             [(diff_entry DiffCommentChanged path (''Head comment changed at '' @ path))
                \<lparr>OldComment := HeadComment (info oldNode), NewComment := HeadComment (info newNode),
                 OldNode := Some oldNode, NewNode := Some newNode\<rparr>]
           else [])
        @ (if LineComment (info oldNode) \<noteq> LineComment (info newNode) then
             [(diff_entry DiffCommentChanged path (''Line comment changed at '' @ path))
                \<lparr>OldComment := [LineComment (info oldNode)],
                 NewComment := [LineComment (info newNode)],
                 OldNode := Some oldNode, NewNode := Some newNode\<rparr>]
           else [])
        @ (if \<not> equalStringSlices (FootComment (info oldNode)) (FootComment (info newNode)) then
             [(diff_entry DiffCommentChanged path (''Foot comment changed at '' @ path))
                \<lparr>OldComment := FootComment (info oldNode), NewComment := FootComment (info newNode),
                 OldNode := Some oldNode, NewNode := Some newNode\<rparr>]
           else [])
        @ (if Tag (info oldNode) \<noteq> Tag (info newNode) then
             [(diff_entry DiffModified path
                 (''Tag changed at '' @ path @ '' from '' @ [CHR 0x27] @ Tag (info oldNode)
                    @ [CHR 0x27] @ '' to '' @ [CHR 0x27] @ Tag (info newNode) @ [CHR 0x27]))
                \<lparr>OldValue := DynVal (VStr (Tag (info oldNode))),
                 NewValue := DynVal (VStr (Tag (info newNode))),
                 OldNode := Some oldNode, NewNode := Some newNode\<rparr>]
           else [])
        @ (if Kind (info oldNode) = MappingNode then
             concat (map (\<lambda>key.
                 case map_of (diffKeys (children oldNode)) key of
                   None \<Rightarrow> []
                 | Some oldValue \<Rightarrow>
                     (case map_of (diffKeys (children newNode)) key of
                        Some newValue \<Rightarrow> []
                      | None \<Rightarrow>
                          [(diff_entry DiffRemoved (path @ ''.'' @ key)
                              (''Key '' @ [CHR 0x27] @ key @ [CHR 0x27] @ '' removed''))
                             \<lparr>OldValue := DynVal (Value (info oldValue)),
                              OldNode := Some oldValue\<rparr>]))
               (rng (map fst (diffKeys (children oldNode)))))
             @ concat (map (\<lambda>key.
                 case map_of (diffKeys (children newNode)) key of
                   None \<Rightarrow> []
                 | Some newValue \<Rightarrow>
                     (case map_of (diffKeys (children oldNode)) key of
                        Some oldValue \<Rightarrow>
                          DiffNodes rng (Some oldValue) (Some newValue) (path @ ''.'' @ key)
                      | None \<Rightarrow>
                          [(diff_entry DiffAdded (path @ ''.'' @ key)
                              (''Key '' @ [CHR 0x27] @ key @ [CHR 0x27] @ '' added''))
                             \<lparr>NewValue := DynVal (Value (info newValue)),
                              NewNode := Some newValue\<rparr>]))
               (rng (map fst (diffKeys (children newNode)))))
           else [])
        @ (if Kind (info oldNode) = SequenceNode then
             (let oldLen = length (children oldNode);
                  newLen = length (children newNode);
                  minLen = (if newLen < oldLen then newLen else oldLen)
              in concat (map (\<lambda>i. DiffNodes rng (Some (children oldNode ! i))
                                     (Some (children newNode ! i))
                                     (path @ ''['' @ show_nat i @ '']''))
                           [0 ..< minLen])
                 @ map (\<lambda>i. (diff_entry DiffRemoved (path @ ''['' @ show_nat i @ '']'')
                                (''Array element at index '' @ show_nat i @ '' removed''))
                               \<lparr>OldValue := DynVal (Value (info (children oldNode ! i))),
                                OldNode := Some (children oldNode ! i)\<rparr>)
                       [minLen ..< oldLen]
                 @ map (\<lambda>i. (diff_entry DiffAdded (path @ ''['' @ show_nat i @ '']'')
                                (''Array element at index '' @ show_nat i @ '' added''))
                               \<lparr>NewValue := DynVal (Value (info (children newNode ! i))),
                                NewNode := Some (children newNode ! i)\<rparr>)
                       [minLen ..< newLen])
           else [])
        @ (if Kind (info oldNode) = DocumentNode \<and> children oldNode \<noteq> []
              \<and> children newNode \<noteq> [] then
             DiffNodes rng (Some (children oldNode ! 0)) (Some (children newNode ! 0)) path
           else []))"
  by pat_completeness auto
termination
  apply (relation "measure (\<lambda>(rng, old, new, path). case old of None \<Rightarrow> 0 | Some n \<Rightarrow> size n)")
  apply simp
  subgoal for rng oldNode newNode path key nv ov
    by (cases oldNode) (auto dest!: diffKeys_in_children size_child)
  subgoal for rng oldNode newNode path ol nl ml i
    by (cases oldNode) (auto split: if_splits intro!: size_child)
  subgoal for rng oldNode newNode path
    by (cases oldNode) (auto intro!: size_child simp: neq_Nil_conv)
  done


declare DiffNodes.simps [simp del]

definition docPath :: "nat \<Rightarrow> string" where
  "docPath i = ''$[document:'' @ show_nat i @ '']''"

definition DiffTrees ::
  "(string list \<Rightarrow> string list) \<Rightarrow> NodeTree option \<Rightarrow> NodeTree option \<Rightarrow> DiffResult list"
where
  "DiffTrees rng oldTree newTree =
     (case (oldTree, newTree) of
        (None, None) \<Rightarrow> []
      | (None, Some nt) \<Rightarrow>
          map (\<lambda>i. (diff_entry DiffAdded (docPath i) (''Document '' @ show_nat i @ '' added''))
                      \<lparr>NewNode := Root (Documents nt ! i)\<rparr>)
              [0 ..< length (Documents nt)]
      | (Some ot, None) \<Rightarrow>
          map (\<lambda>i. (diff_entry DiffRemoved (docPath i) (''Document '' @ show_nat i @ '' removed''))
                      \<lparr>OldNode := Root (Documents ot ! i)\<rparr>)
              [0 ..< length (Documents ot)]
      | (Some ot, Some nt) \<Rightarrow>
          (let maxDocs = (if length (Documents nt) > length (Documents ot)
                          then length (Documents nt) else length (Documents ot))
           in concat (map (\<lambda>i.
                if i \<ge> length (Documents ot) then
                  [(diff_entry DiffAdded (docPath i) (''Document '' @ show_nat i @ '' added''))
                     \<lparr>NewNode := Root (Documents nt ! i)\<rparr>]
                else if i \<ge> length (Documents nt) then
                  [(diff_entry DiffRemoved (docPath i) (''Document '' @ show_nat i @ '' removed''))
                     \<lparr>OldNode := Root (Documents ot ! i)\<rparr>]
                else DiffNodes rng (Root (Documents ot ! i)) (Root (Documents nt ! i)) (docPath i))
              [0 ..< maxDocs])))"

lemma equalStringSlices_refl: "equalStringSlices a a"
  by (induction a) (auto simp: equalStringSlices_def)

lemma concat_map_Nil: "(\<And>x. x \<in> set xs \<Longrightarrow> f x = []) \<Longrightarrow> concat (map f xs) = []"
  by (induction xs) auto

lemma DiffNodes_same_node: "DiffNodes rng (Some n) (Some n) path = []"
proof (induction n arbitrary: path rule: measure_induct_rule[where f = size])
  case (less n)
  have child: "DiffNodes rng (Some c) (Some c) p = []" if "c \<in> set (children n)" for c p
    using less.IH[of c p] that size_child[of c "children n"] by (cases n) auto
  have removed: "concat (map (\<lambda>key.
                 case map_of (diffKeys (children n)) key of
                   None \<Rightarrow> []
                 | Some oldValue \<Rightarrow>
                     (case map_of (diffKeys (children n)) key of
                        Some newValue \<Rightarrow> []
                      | None \<Rightarrow> f key oldValue)) ks) = []" for f :: "string \<Rightarrow> node \<Rightarrow> DiffResult list" and ks
    by (rule concat_map_Nil) (simp split: option.splits)
  have both: "concat (map (\<lambda>key.
                 case map_of (diffKeys (children n)) key of
                   None \<Rightarrow> []
                 | Some newValue \<Rightarrow>
                     (case map_of (diffKeys (children n)) key of
                        Some oldValue \<Rightarrow>
                          DiffNodes rng (Some oldValue) (Some newValue) (path @ ''.'' @ key)
                      | None \<Rightarrow> g key newValue)) ks) = []" for g :: "string \<Rightarrow> node \<Rightarrow> DiffResult list" and ks
  proof (rule concat_map_Nil)
    fix key
    show "(case map_of (diffKeys (children n)) key of
                   None \<Rightarrow> []
                 | Some newValue \<Rightarrow>
                     (case map_of (diffKeys (children n)) key of
                        Some oldValue \<Rightarrow>
                          DiffNodes rng (Some oldValue) (Some newValue) (path @ ''.'' @ key)
                      | None \<Rightarrow> g key newValue)) = []"
    proof (cases "map_of (diffKeys (children n)) key")
      case None then show ?thesis by simp
    next
      case (Some v)
      then have "v \<in> set (children n)" by (rule diffKeys_in_children)
      then show ?thesis by (simp add: Some child)
    qed
  qed
  have seq: "concat (map (\<lambda>i. DiffNodes rng (Some (children n ! i)) (Some (children n ! i))
                                     (path @ ''['' @ show_nat i @ '']''))
                           [0 ..< length (children n)]) = []"
    by (rule concat_map_Nil) (simp add: child)
  have doc: "children n \<noteq> [] \<Longrightarrow> DiffNodes rng (Some (children n ! 0)) (Some (children n ! 0)) path = []"
    by (rule child) (cases "children n", auto)
  show ?case
    apply (subst DiffNodes.simps)
    apply (simp only: Let_def removed both seq equalStringSlices_refl
          refl if_False if_True append_Nil upt_conv_Nil simp_thms
          list.map less_irrefl if_cancel order_refl concat.simps)
    apply (simp add: doc)
    done
qed

text \<open>
  Claim C4. Diffing a tree against itself reports nothing: for every tree \<open>t\<close> (also the
  nil tree) \<^verbatim>\<open>DiffTrees(t, t)\<close> is the empty list, and for every node \<open>n\<close> (also nil) and
  every path \<open>p\<close> \<^verbatim>\<open>DiffNodes(n, n, p)\<close> is the empty list, so it holds no Added, Removed,
  Modified, StyleChanged or CommentChanged entry. This holds for every order \<open>rng\<close> in which
  the runtime may range over the key maps. A well-formed tree is a value of the tree type:
  finite, without nil children and without a node that is its own descendant.
\<close>

theorem diff_self_identity: "DiffTrees rng t t = [] \<and> DiffNodes rng n n p = []"
proof
  show "DiffNodes rng n n p = []"
    by (cases n) (simp_all add: DiffNodes_same_node DiffNodes.simps)
  show "DiffTrees rng t t = []"
  proof (cases t)
    case None then show ?thesis by (simp add: DiffTrees_def)
  next
    case (Some nt)
    have "DiffNodes rng r r q = []" for r q
      by (cases r) (simp_all add: DiffNodes_same_node DiffNodes.simps)
    then show ?thesis
      by (simp add: DiffTrees_def Some)
  qed
qed

definition sample_mapping :: node where
  "sample_mapping =
     Node (NewNodeInfo MappingNode)
       [NewScalarNode (VStr ''a''), NewScalarNode (VInt 1),
        NewScalarNode (VStr ''b''), Node (NewNodeInfo SequenceNode) [NewScalarNode (VInt 2)]]"

definition sample_tree :: NodeTree where
  "sample_tree =
     AddDocument NewNodeTree
       (emptyDocument\<lparr>Root := Some (Node (NewNodeInfo DocumentNode) [sample_mapping])\<rparr>)"

theorem diff_self_identity_witness:
  "DiffTrees rev (Some sample_tree) (Some sample_tree) = []
   \<and> DiffNodes rev (Some sample_mapping) (Some sample_mapping) ''$'' = []"
  by (rule diff_self_identity)

section \<open>Parsing: \<^verbatim>\<open>UnmarshalYAML\<close> and the conversion from the reader's nodes\<close>

text \<open>
  The reader is the library \<^verbatim>\<open>gopkg.in/yaml.v3\<close>, which is not part of the repository. Its
  node type is embedded as the code uses it; \<^verbatim>\<open>yaml.Unmarshal\<close> and \<^verbatim>\<open>strconv.ParseFloat\<close>
  are parameters of the model. A float is returned as the text \<^verbatim>\<open>%v\<close> prints for it, with
  the flag that the error was nil.
\<close>

datatype YKind = YZeroKind | YDocumentNode | YSequenceNode | YMappingNode | YScalarNode | YAliasNode

record ynode_info =
  YKindOf :: YKind
  YStyle :: nat
  YTag :: string
  YValue :: string
  YAnchor :: string
  YHeadComment :: string
  YLineComment :: string
  YFootComment :: string
  YLine :: int
  YColumn :: int

datatype ynode = YNode (yinfo: ynode_info) (YContent: "ynode list")

text \<open>The style flags of yaml.v3: \<^verbatim>\<open>TaggedStyle = 1 << iota\<close> and the five that follow.\<close>

definition YTaggedStyle :: nat where "YTaggedStyle = 1"
definition YDoubleQuotedStyle :: nat where "YDoubleQuotedStyle = 2"
definition YSingleQuotedStyle :: nat where "YSingleQuotedStyle = 4"
definition YLiteralStyle :: nat where "YLiteralStyle = 8"
definition YFoldedStyle :: nat where "YFoldedStyle = 16"
definition YFlowStyle :: nat where "YFlowStyle = 32"

record externals =
  yaml_Unmarshal :: "string \<Rightarrow> string + ynode"
  ParseFloat :: "string \<Rightarrow> string \<times> bool"

subsection \<open>The functions of \<^verbatim>\<open>strings\<close> and \<^verbatim>\<open>strconv\<close> that the code calls\<close>

text \<open>\<^verbatim>\<open>strings.Split(s, sep)\<close> for a separator of one byte: always at least one piece.\<close>

fun split_on :: "char \<Rightarrow> string \<Rightarrow> string list" where
  "split_on sep [] = [[]]"
| "split_on sep (c # cs) =
     (if c = sep then [] # split_on sep cs
      else (case split_on sep cs of
              [] \<Rightarrow> [[c]]
            | piece # pieces \<Rightarrow> (c # piece) # pieces))"

definition newline :: char where
  "newline = CHR 0x0A"

definition Split_lines :: "string \<Rightarrow> string list" where
  "Split_lines s = split_on newline s"

text \<open>\<^verbatim>\<open>strings.Join(xs, "\n")\<close>\<close>

fun Join_lines :: "string list \<Rightarrow> string" where
  "Join_lines [] = []"
| "Join_lines [x] = x"
| "Join_lines (x # y # ys) = x @ [newline] @ Join_lines (y # ys)"

text \<open>
  \<^verbatim>\<open>strings.TrimSpace\<close> removes leading and trailing Unicode white space. On the bytes
  of a UTF-8 string these are the six ASCII characters and the encodings of U+0085,
  U+00A0, U+1680, U+2000 to U+200A, U+2028, U+2029, U+202F, U+205F and U+3000.
\<close>

definition white_space :: "string list" where
  "white_space =
     [[CHR 0x09], [CHR 0x0A], [CHR 0x0B], [CHR 0x0C], [CHR 0x0D], [CHR 0x20],
      [CHR 0xC2, CHR 0x85], [CHR 0xC2, CHR 0xA0], [CHR 0xE1, CHR 0x9A, CHR 0x80],
      [CHR 0xE2, CHR 0x80, CHR 0x80], [CHR 0xE2, CHR 0x80, CHR 0x81],
      [CHR 0xE2, CHR 0x80, CHR 0x82], [CHR 0xE2, CHR 0x80, CHR 0x83],
      [CHR 0xE2, CHR 0x80, CHR 0x84], [CHR 0xE2, CHR 0x80, CHR 0x85],
      [CHR 0xE2, CHR 0x80, CHR 0x86], [CHR 0xE2, CHR 0x80, CHR 0x87],
      [CHR 0xE2, CHR 0x80, CHR 0x88], [CHR 0xE2, CHR 0x80, CHR 0x89],
      [CHR 0xE2, CHR 0x80, CHR 0x8A], [CHR 0xE2, CHR 0x80, CHR 0xA8],
      [CHR 0xE2, CHR 0x80, CHR 0xA9], [CHR 0xE2, CHR 0x80, CHR 0xAF],
      [CHR 0xE2, CHR 0x81, CHR 0x9F], [CHR 0xE3, CHR 0x80, CHR 0x80]]"

definition HasPrefix :: "string \<Rightarrow> string \<Rightarrow> bool" where
  "HasPrefix s p = (take (length p) s = p)"

function trim_left :: "string list \<Rightarrow> string \<Rightarrow> string" where
  "trim_left ws s =
     (case find (HasPrefix s) ws of
        None \<Rightarrow> s
      | Some w \<Rightarrow> if w = [] \<or> length s < length w then s
                  else trim_left ws (drop (length w) s))"
  by pat_completeness auto
termination
  by (relation "measure (\<lambda>(ws, s). length s)") (auto simp: neq_Nil_conv)

definition TrimSpace :: "string \<Rightarrow> string" where
  "TrimSpace s = rev (trim_left (map rev white_space) (rev (trim_left white_space s)))"

text \<open>\<^verbatim>\<open>strconv.ParseInt(s, 10, 64)\<close>: an optional sign, then decimal digits only, and the
  value must fit an int64.\<close>

definition is_digit :: "char \<Rightarrow> bool" where
  "is_digit c = (CHR ''0'' \<le> c \<and> c \<le> CHR ''9'')"

definition digits_val :: "string \<Rightarrow> nat" where
  "digits_val ds = foldl (\<lambda>a c. 10 * a + (of_char c - 48)) 0 ds"

definition ParseInt :: "string \<Rightarrow> int option" where
  "ParseInt s =
     (let neg = (s \<noteq> [] \<and> hd s = CHR ''-'');
          ds = (if s \<noteq> [] \<and> (hd s = CHR ''-'' \<or> hd s = CHR ''+'') then tl s else s)
      in if ds = [] \<or> \<not> list_all is_digit ds then None
         else (let n = int (digits_val ds)
               in if neg then (if n > 2 ^ 63 then None else Some (- n))
                  else (if n \<ge> 2 ^ 63 then None else Some n)))"

subsection \<open>\<^verbatim>\<open>ConvertFromYAMLNode\<close>\<close>

definition convertKind :: "YKind \<Rightarrow> NodeKind" where
  "convertKind k =
     (case k of
        YDocumentNode \<Rightarrow> DocumentNode
      | YMappingNode \<Rightarrow> MappingNode
      | YSequenceNode \<Rightarrow> SequenceNode
      | YScalarNode \<Rightarrow> ScalarNode
      | YAliasNode \<Rightarrow> AliasNode
      | YZeroKind \<Rightarrow> ScalarNode)"

definition convertStyle :: "nat \<Rightarrow> NodeStyle" where
  "convertStyle st =
     (if st = YLiteralStyle then LiteralStyle
      else if st = YFoldedStyle then FoldedStyle
      else if st = YSingleQuotedStyle then QuotedStyle
      else if st = YDoubleQuotedStyle then DoubleQuotedStyle
      else if st = YFlowStyle then FlowStyle
      else DefaultStyle)"

definition decodeScalar :: "externals \<Rightarrow> string \<Rightarrow> string \<Rightarrow> val" where
  "decodeScalar ext tag v =
     (if tag = ''!!str'' \<or> tag = [] then
        (if v = ''true'' then VBool True
         else if v = ''false'' then VBool False
         else if v = ''null'' \<or> v = ''~'' then VNil
         else (case ParseInt v of
                 Some i \<Rightarrow> VInt i
               | None \<Rightarrow> (if snd (ParseFloat ext v) then VFloat (fst (ParseFloat ext v))
                           else VStr v)))
      else if tag = ''!!bool'' then VBool (v = ''true'')
      else if tag = ''!!int'' then (case ParseInt v of Some i \<Rightarrow> VInt i | None \<Rightarrow> VStr v)
      else if tag = ''!!float'' then VFloat (fst (ParseFloat ext v))
      else if tag = ''!!null'' then VNil
      else VStr v)"

definition splitComment :: "string \<Rightarrow> string list" where
  "splitComment c = (if c \<noteq> [] then Split_lines c else [])"

definition convertInfo :: "externals \<Rightarrow> ynode_info \<Rightarrow> node_info" where
  "convertInfo ext y =
     \<lparr>Kind = convertKind (YKindOf y),
      Style = convertStyle (YStyle y),
      Tag = YTag y,
      Value = (if convertKind (YKindOf y) = ScalarNode then decodeScalar ext (YTag y) (YValue y)
               else VStr (YValue y)),
      Anchor = YAnchor y,
      Line = YLine y,
      Column = YColumn y,
      HeadComment = splitComment (YHeadComment y),
      LineComment = YLineComment y,
      FootComment = splitComment (YFootComment y),
      EmptyLines = [],
      Metadata = Map.empty\<rparr>"

text \<open>The key of a pair keeps the literal text \<^verbatim>\<open>null\<close>.\<close>

definition literalNullKey :: "ynode \<Rightarrow> node \<Rightarrow> node" where
  "literalNullKey keyYamlNode key =
     (if Kind (info key) = ScalarNode \<and> YValue (yinfo keyYamlNode) = ''null''
      then Node ((info key)\<lparr>Value := VStr ''null''\<rparr>) (children key) else key)"

lemma kv_pairs_elems:
  "(k, v) \<in> set (kv_pairs cs) \<Longrightarrow> k \<in> set cs \<and> v \<in> set cs"
  by (induction cs rule: kv_pairs.induct) auto

lemma ynode_size_child: "x \<in> set cs \<Longrightarrow> size x < Suc (size_list size cs)"
  by (simp add: less_Suc_eq_le size_list_estimation')

function ConvertFromYAMLNode :: "externals \<Rightarrow> ynode \<Rightarrow> node" where
  "ConvertFromYAMLNode ext yamlNode =
     Node (convertInfo ext (yinfo yamlNode))
       (if convertKind (YKindOf (yinfo yamlNode)) = MappingNode then
          concat (map (\<lambda>kv. [literalNullKey (fst kv) (ConvertFromYAMLNode ext (fst kv)),
                             ConvertFromYAMLNode ext (snd kv)])
                      (kv_pairs (YContent yamlNode)))
        else if convertKind (YKindOf (yinfo yamlNode)) = SequenceNode
                \<or> convertKind (YKindOf (yinfo yamlNode)) = DocumentNode then
          map (ConvertFromYAMLNode ext) (YContent yamlNode)
        else [])"
  by pat_completeness auto
termination
  apply (relation "measure (\<lambda>(ext, y). size y)")
     apply simp
  subgoal for ext yamlNode kv
    using kv_pairs_elems[of "fst kv" "snd kv" "YContent yamlNode"]
      ynode_size_child[of "fst kv" "YContent yamlNode"]
    by (cases yamlNode) auto
  subgoal for ext yamlNode kv
    using kv_pairs_elems[of "fst kv" "snd kv" "YContent yamlNode"]
      ynode_size_child[of "snd kv" "YContent yamlNode"]
    by (cases yamlNode) auto
  subgoal for ext yamlNode c
    by (cases yamlNode) (auto dest!: ynode_size_child)
  done

declare ConvertFromYAMLNode.simps [simp del]

subsection \<open>\<^verbatim>\<open>splitDocuments\<close>, \<^verbatim>\<open>resolveAnchors\<close> and \<^verbatim>\<open>UnmarshalYAML\<close>\<close>

fun splitLoop :: "string list \<Rightarrow> string list \<Rightarrow> string \<Rightarrow> bool \<Rightarrow> string list \<times> string" where
  "splitLoop [] documents currentDoc inDocument = (documents, currentDoc)"
| "splitLoop (line # rest) documents currentDoc inDocument =
     (if TrimSpace line = ''---'' then
        (if currentDoc \<noteq> [] then splitLoop rest (documents @ [currentDoc]) [] True
         else splitLoop rest documents currentDoc True)
      else if TrimSpace line = ''...'' then
        (if currentDoc \<noteq> [] then splitLoop rest (documents @ [currentDoc]) [] False
         else splitLoop rest documents currentDoc False)
      else if inDocument \<or> documents = [] then
        splitLoop rest documents
          ((if currentDoc \<noteq> [] then currentDoc @ [newline] else currentDoc) @ line) True
      else splitLoop rest documents currentDoc inDocument)"

definition splitDocuments :: "string \<Rightarrow> string list" where
  "splitDocuments content =
     (let (documents, currentDoc) = splitLoop (Split_lines content) [] [] False;
          documents = (if currentDoc \<noteq> [] then documents @ [currentDoc] else documents)
      in if documents = [] \<and> content \<noteq> [] then [content] else documents)"

text \<open>The scan of one document's lines: whether a line of YAML content was met, and the
  comment lines collected before it.\<close>

fun scanLines :: "string list \<Rightarrow> string list \<Rightarrow> bool \<times> string list" where
  "scanLines [] commentLines = (False, commentLines)"
| "scanLines (line # rest) commentLines =
     (if TrimSpace line \<noteq> [] \<and> \<not> HasPrefix (TrimSpace line) ''#'' \<and> TrimSpace line \<noteq> ''---''
      then (True, commentLines)
      else if TrimSpace line \<noteq> ''---'' \<and> (TrimSpace line \<noteq> [] \<or> commentLines \<noteq> [])
      then scanLines rest (commentLines @ [line])
      else scanLines rest commentLines)"

definition dropTrailingEmpty :: "string list \<Rightarrow> string list" where
  "dropTrailingEmpty commentLines = rev (dropWhile (\<lambda>l. TrimSpace l = []) (rev commentLines))"

text \<open>
  \<^verbatim>\<open>resolveAnchors\<close> registers every anchored node under its name, parents before children
  and children in order. (It also points each alias node at its target; the tree has no
  \<^verbatim>\<open>Alias\<close> pointer.)
\<close>

fun resolveAnchors :: "node \<Rightarrow> (string \<rightharpoonup> node) \<Rightarrow> (string \<rightharpoonup> node)" where
  "resolveAnchors (Node i cs) anchors =
     fold resolveAnchors cs (if Anchor i \<noteq> [] then anchors(Anchor i \<mapsto> Node i cs) else anchors)"

fun unmarshalDocuments :: "externals \<Rightarrow> string list \<Rightarrow> NodeTree \<Rightarrow> string + NodeTree" where
  "unmarshalDocuments ext [] tree = Inr tree"
| "unmarshalDocuments ext (docContent # rest) tree =
     (let (hasYAMLContent, commentLines) = scanLines (Split_lines docContent) []
      in if \<not> hasYAMLContent \<and> commentLines \<noteq> [] then
           unmarshalDocuments ext rest
             (AddDocument tree
                (emptyDocument\<lparr>Root := Some (Node ((NewNodeInfo DocumentNode)
                    \<lparr>HeadComment := dropTrailingEmpty commentLines\<rparr>) [])\<rparr>))
         else
           (case yaml_Unmarshal ext docContent of
              Inl err \<Rightarrow> Inl (''failed to unmarshal document: '' @ err)
            | Inr yamlNode \<Rightarrow>
                (let rootNode = ConvertFromYAMLNode ext yamlNode
                 in unmarshalDocuments ext rest
                      (AddDocument tree
                         (emptyDocument\<lparr>Root := Some rootNode,
                            Anchors := resolveAnchors rootNode Map.empty\<rparr>)))))"

definition UnmarshalYAML :: "externals \<Rightarrow> string \<Rightarrow> string + NodeTree" where
  "UnmarshalYAML ext data =
     (if data = [] then Inr (AddDocument NewNodeTree (emptyDocument\<lparr>Root := None\<rparr>))
      else unmarshalDocuments ext (splitDocuments data) NewNodeTree)"

text \<open>
  Claim C9. \<^verbatim>\<open>UnmarshalYAML\<close> applied to the empty input returns a nil error and a tree
  holding exactly one document, whose root is nil; whatever the reader would answer (also
  a reader that fails on every input), the empty input is not reported as a parse failure.
\<close>

theorem unmarshal_empty_input:
  "UnmarshalYAML ext [] =
     Inr \<lparr>Documents = [\<lparr>Root = None, Directives = [], Version = [], Anchors = Map.empty\<rparr>],
          Current = Some 0\<rparr>"
  by (simp add: UnmarshalYAML_def AddDocument_def NewNodeTree_def emptyDocument_def)

definition failing_reader :: externals where
  "failing_reader = \<lparr>yaml_Unmarshal = (\<lambda>s. Inl ''yaml: error''), ParseFloat = (\<lambda>s. (''0'', False))\<rparr>"

theorem unmarshal_empty_input_witness:
  "(case UnmarshalYAML failing_reader [] of
      Inl err \<Rightarrow> False
    | Inr t \<Rightarrow> length (Documents t) = 1 \<and> Root (Documents t ! 0) = None)"
  by (simp add: unmarshal_empty_input)

section \<open>The merge engine\<close>

text \<open>
  \<^verbatim>\<open>Clone\<close> copies every field of the node (the comment slices and the metadata map entry
  by entry) and clones the children in order. On the ownership tree the map of nodes
  already cloned is never hit.
\<close>

fun Clone :: "node \<Rightarrow> node" where
  "Clone (Node i cs) =
     Node \<lparr>Kind = Kind i, Style = Style i, Tag = Tag i, Value = Value i, Anchor = Anchor i,
           Line = Line i, Column = Column i, HeadComment = HeadComment i,
           LineComment = LineComment i, FootComment = FootComment i,
           EmptyLines = EmptyLines i, Metadata = Metadata i\<rparr>
          (map Clone cs)"

text \<open>\<^verbatim>\<open>baseKeys\<close>: rendered text of each Scalar key of base to the index of the key in
  \<^verbatim>\<open>base.Children\<close>; a later pair with the same text replaces the earlier index.\<close>

fun baseKeysFrom :: "nat \<Rightarrow> node list \<Rightarrow> (string \<rightharpoonup> nat) \<Rightarrow> (string \<rightharpoonup> nat)" where
  "baseKeysFrom i (keyNode # valueNode # rest) m =
     baseKeysFrom (i + 2) rest
       (if Kind (info keyNode) = ScalarNode then m(sprint (Value (info keyNode)) \<mapsto> i) else m)"
| "baseKeysFrom i cs m = m"

definition baseKeys :: "node list \<Rightarrow> (string \<rightharpoonup> nat)" where
  "baseKeys cs = baseKeysFrom 0 cs Map.empty"

text \<open>The comments of the overlay key replace those of the key already in the result, class
  by class, where the overlay key has any.\<close>

definition overlayKeyComments :: "node \<Rightarrow> node \<Rightarrow> node" where
  "overlayKeyComments resultKey overlayKey =
     Node ((info resultKey)
             \<lparr>HeadComment := (if HeadComment (info overlayKey) \<noteq> []
                               then HeadComment (info overlayKey)
                               else HeadComment (info resultKey)),
              LineComment := (if LineComment (info overlayKey) \<noteq> []
                               then LineComment (info overlayKey)
                               else LineComment (info resultKey)),
              FootComment := (if FootComment (info overlayKey) \<noteq> []
                               then FootComment (info overlayKey)
                               else FootComment (info resultKey))\<rparr>)
          (children resultKey)"

text \<open>The last branch of \<^verbatim>\<open>MergeNodes\<close>: the clone of overlay takes each class of comment
  from base where it has none itself.\<close>

definition baseCommentFallback :: "node \<Rightarrow> node \<Rightarrow> node" where
  "baseCommentFallback result base =
     Node ((info result)
             \<lparr>HeadComment := (if HeadComment (info result) = [] \<and> HeadComment (info base) \<noteq> []
                               then HeadComment (info base) else HeadComment (info result)),
              LineComment := (if LineComment (info result) = [] \<and> LineComment (info base) \<noteq> []
                               then LineComment (info base) else LineComment (info result)),
              FootComment := (if FootComment (info result) = [] \<and> FootComment (info base) \<noteq> []
                               then FootComment (info base) else FootComment (info result))\<rparr>)
          (children result)"

text \<open>
  \<^verbatim>\<open>mergeNonNil\<close> is \<^verbatim>\<open>MergeNodes\<close> after its nil checks. \<^verbatim>\<open>mergeOverlay\<close> is its loop over
  the pairs of \<^verbatim>\<open>overlay.Children\<close>; \<open>rc\<close> is \<^verbatim>\<open>result.Children\<close>, which starts as the
  children of the clone of base.
\<close>

lemma size_children_less: "size_list size (children n) < size n"
  by (cases n) simp

function (sequential) mergeNonNil :: "node \<Rightarrow> node \<Rightarrow> node"
  and mergeOverlay :: "(string \<rightharpoonup> nat) \<Rightarrow> node list \<Rightarrow> node list \<Rightarrow> node list"
where
  "mergeNonNil base overlay =
     (if Kind (info base) = MappingNode \<and> Kind (info overlay) = MappingNode then
        Node (info (Clone base))
          (mergeOverlay (baseKeys (children base)) (children (Clone base)) (children overlay))
      else if Kind (info base) = SequenceNode \<and> Kind (info overlay) = SequenceNode then
        Node (info (Clone base)) (children (Clone base) @ map Clone (children overlay))
      else baseCommentFallback (Clone overlay) base)"
| "mergeOverlay bk rc (overlayKey # overlayValue # rest) =
     (if Kind (info overlayKey) = ScalarNode then
        (case bk (sprint (Value (info overlayKey))) of
           Some baseIdx \<Rightarrow>
             (if Kind (info (rc ! (baseIdx + 1))) = MappingNode
                 \<and> Kind (info overlayValue) = MappingNode then
                mergeOverlay bk
                  (rc[baseIdx + 1 := mergeNonNil (rc ! (baseIdx + 1)) overlayValue]) rest
              else
                mergeOverlay bk
                  (rc[baseIdx := overlayKeyComments (rc ! baseIdx) overlayKey,
                      baseIdx + 1 := Clone overlayValue]) rest)
         | None \<Rightarrow> mergeOverlay bk (rc @ [Clone overlayKey, Clone overlayValue]) rest)
      else mergeOverlay bk rc rest)"
| "mergeOverlay bk rc [] = rc"
| "mergeOverlay bk rc [overlayKey] = rc"
  by pat_completeness auto
termination
  by (relation "measure (\<lambda>x. case x of Inl (base, overlay) \<Rightarrow> size overlay
                                    | Inr (bk, rc, os) \<Rightarrow> size_list size os)")
     (auto simp: size_children_less)

definition MergeNodes :: "node option \<Rightarrow> node option \<Rightarrow> node option" where
  "MergeNodes base overlay =
     (case base of
        None \<Rightarrow> (case overlay of None \<Rightarrow> None | Some ov \<Rightarrow> Some (Clone ov))
      | Some b \<Rightarrow> (case overlay of None \<Rightarrow> Some (Clone b) | Some ov \<Rightarrow> Some (mergeNonNil b ov)))"

text \<open>\<^verbatim>\<open>GetMapValue\<close>: the value of the first pair whose key is a Scalar rendering to \<open>key\<close>.\<close>

definition GetMapValue :: "node \<Rightarrow> string \<Rightarrow> node option" where
  "GetMapValue n key =
     (if Kind (info n) \<noteq> MappingNode then None
      else map_option snd
             (find (\<lambda>kv. Kind (info (fst kv)) = ScalarNode \<and> sprint (Value (info (fst kv))) = key)
                   (kv_pairs (children n))))"

subsection \<open>The key-wise union, stated on pairs\<close>

text \<open>
  The text a key is compared by, and the pairs of the merged mapping as the loop leaves
  them: each base pair, changed by the overlay pair with the same Scalar key if there is
  one, then the overlay pairs whose Scalar key base does not have.
\<close>

definition keyText :: "node \<Rightarrow> string" where
  "keyText k = sprint (Value (info k))"

definition isScalar :: "node \<Rightarrow> bool" where
  "isScalar k = (Kind (info k) = ScalarNode)"

definition scalarKeys :: "node list \<Rightarrow> string list" where
  "scalarKeys cs = map (keyText \<circ> fst) (filter (isScalar \<circ> fst) (kv_pairs cs))"

definition overlayPair :: "node list \<Rightarrow> string \<Rightarrow> (node \<times> node) option" where
  "overlayPair os s = find (\<lambda>kv. isScalar (fst kv) \<and> keyText (fst kv) = s) (kv_pairs os)"

definition mergedPair :: "node list \<Rightarrow> node \<times> node \<Rightarrow> node \<times> node" where
  "mergedPair os kv =
     (if isScalar (fst kv) then
        (case overlayPair os (keyText (fst kv)) of
           None \<Rightarrow> kv
         | Some okv \<Rightarrow>
             if Kind (info (snd kv)) = MappingNode \<and> Kind (info (snd okv)) = MappingNode
             then (fst kv, mergeNonNil (snd kv) (snd okv))
             else (overlayKeyComments (fst kv) (fst okv), Clone (snd okv)))
      else kv)"

definition clonePair :: "node \<times> node \<Rightarrow> node \<times> node" where
  "clonePair kv = (Clone (fst kv), Clone (snd kv))"

definition keyUnion :: "node list \<Rightarrow> node list \<Rightarrow> node list" where
  "keyUnion bs os =
     unpairs (map (mergedPair os \<circ> clonePair) (kv_pairs bs)
              @ map clonePair (filter (\<lambda>kv. isScalar (fst kv) \<and> keyText (fst kv) \<notin> set (scalarKeys bs))
                                 (kv_pairs os)))"

definition scalar_int :: "int \<Rightarrow> node" where "scalar_int i = NewScalarNode (VInt i)"
definition scalar_str :: "string \<Rightarrow> node" where "scalar_str s = NewScalarNode (VStr s)"
definition mapping_of :: "node list \<Rightarrow> node" where "mapping_of cs = Node (NewNodeInfo MappingNode) cs"

definition uniqueKeyMapping :: "node \<Rightarrow> bool" where
  "uniqueKeyMapping n =
     (Kind (info n) = MappingNode \<and> even (length (children n))
      \<and> distinct (scalarKeys (children n)))"

text \<open>
  The union as the specification words it, for any two mappings: keys are compared by
  their rendered text whatever the kind of the key node, and every overlay key that base
  lacks is appended.
\<close>

definition specKeyUnion :: "node list \<Rightarrow> node list \<Rightarrow> node list" where
  "specKeyUnion bs os =
     unpairs
       (map (\<lambda>kv. case find (\<lambda>okv. keyText (fst okv) = keyText (fst kv)) (kv_pairs os) of
                     None \<Rightarrow> clonePair kv
                   | Some okv \<Rightarrow>
                       if Kind (info (snd kv)) = MappingNode \<and> Kind (info (snd okv)) = MappingNode
                       then (Clone (fst kv), mergeNonNil (Clone (snd kv)) (snd okv))
                       else (overlayKeyComments (Clone (fst kv)) (fst okv), Clone (snd okv)))
            (kv_pairs bs)
        @ map clonePair
            (filter (\<lambda>okv. keyText (fst okv) \<notin> set (map (keyText \<circ> fst) (kv_pairs bs)))
                    (kv_pairs os)))"

definition complex_key :: node where
  "complex_key = Node (NewNodeInfo SequenceNode) [scalar_str ''x'']"

text \<open>The invariant of the loop: \<open>bk\<close> maps exactly the Scalar keys of the first \<open>nb\<close>
  pairs of the result to their positions.\<close>

definition bk_ok :: "(string \<rightharpoonup> nat) \<Rightarrow> nat \<Rightarrow> (node \<times> node) list \<Rightarrow> bool" where
  "bk_ok bk nb P =
     (nb \<le> length P
      \<and> (\<forall>s i. bk s = Some i \<longrightarrow>
             (\<exists>j<nb. i = 2 * j \<and> isScalar (fst (P ! j)) \<and> keyText (fst (P ! j)) = s))
      \<and> (\<forall>j<nb. isScalar (fst (P ! j)) \<longrightarrow> bk (keyText (fst (P ! j))) = Some (2 * j)))"

definition appendedPairs :: "(string \<rightharpoonup> nat) \<Rightarrow> node list \<Rightarrow> (node \<times> node) list" where
  "appendedPairs bk os =
     map clonePair (filter (\<lambda>kv. isScalar (fst kv) \<and> bk (keyText (fst kv)) = None) (kv_pairs os))"

definition example_base :: node where
  "example_base = mapping_of [scalar_str ''a'', scalar_int 1, scalar_str ''b'', scalar_int 2]"

definition example_overlay :: node where
  "example_overlay = mapping_of [scalar_str ''b'', scalar_int 3, scalar_str ''c'', scalar_int 4]"

definition commented_two :: node where
  "commented_two = Node ((NewNodeInfo ScalarNode)\<lparr>Value := VInt 2, HeadComment := [''# keep'']\<rparr>) []"

definition comment_base :: node where
  "comment_base = mapping_of [scalar_str ''b'', commented_two]"

definition comment_overlay :: node where
  "comment_overlay = mapping_of [scalar_str ''b'', scalar_int 3]"

subsection \<open>Properties of the merge\<close>

declare mergeNonNil.simps [simp del]

lemma Clone_id: "Clone n = n"
proof (induction n rule: measure_induct_rule[where f = size])
  case (less n)
  obtain i cs where n: "n = Node i cs" by (cases n)
  have "map Clone cs = cs"
    by (rule map_idI) (use less.IH n size_child in auto)
  then show ?case by (simp add: n)
qed

lemma unpairs_kv_pairs: "even (length cs) \<Longrightarrow> unpairs (kv_pairs cs) = cs"
  by (induction cs rule: kv_pairs.induct) auto

lemma kv_pairs_unpairs: "kv_pairs (unpairs ps) = ps"
  by (induction ps) auto

lemma unpairs_append: "unpairs (ps @ qs) = unpairs ps @ unpairs qs"
  by (induction ps) auto

lemma length_unpairs: "length (unpairs ps) = 2 * length ps"
  by (induction ps) auto

lemma unpairs_nth:
  "j < length ps \<Longrightarrow> unpairs ps ! (2 * j) = fst (ps ! j) \<and> unpairs ps ! (2 * j + 1) = snd (ps ! j)"
proof (induction ps arbitrary: j)
  case Nil then show ?case by simp
next
  case (Cons p ps)
  obtain k v where p: "p = (k, v)" by (cases p)
  show ?case using Cons by (cases j) (auto simp: p)
qed

lemma unpairs_update_snd:
  "j < length ps \<Longrightarrow> (unpairs ps)[2 * j + 1 := x] = unpairs (ps[j := (fst (ps ! j), x)])"
proof (induction ps arbitrary: j)
  case Nil then show ?case by simp
next
  case (Cons p ps)
  obtain k v where p: "p = (k, v)" by (cases p)
  show ?case using Cons by (cases j) (auto simp: p)
qed

lemma unpairs_update_both:
  "j < length ps \<Longrightarrow> (unpairs ps)[2 * j := y, 2 * j + 1 := x] = unpairs (ps[j := (y, x)])"
proof (induction ps arbitrary: j)
  case Nil then show ?case by simp
next
  case (Cons p ps)
  obtain k v where p: "p = (k, v)" by (cases p)
  show ?case using Cons by (cases j) (auto simp: p)
qed

text \<open>What \<open>baseKeys\<close> holds.\<close>

lemma baseKeysFrom_Some:
  "baseKeysFrom i0 (unpairs B) m s = Some i \<Longrightarrow>
     m s = Some i \<or> (\<exists>j < length B. i = i0 + 2 * j \<and> isScalar (fst (B ! j)) \<and> keyText (fst (B ! j)) = s)"
proof (induction B arbitrary: i0 m)
  case Nil then show ?case by simp
next
  case (Cons p B)
  obtain k v where p: "p = (k, v)" by (cases p)
  from Cons.prems have
    "baseKeysFrom (i0 + 2) (unpairs B)
       (if Kind (info k) = ScalarNode then m(sprint (Value (info k)) \<mapsto> i0) else m) s = Some i"
    by (simp add: p)
  from Cons.IH[OF this] show ?case
  proof
    assume "(if Kind (info k) = ScalarNode then m(sprint (Value (info k)) \<mapsto> i0) else m) s = Some i"
    then show ?thesis
      by (auto simp: p isScalar_def keyText_def split: if_splits intro!: exI[of _ 0])
  next
    assume "\<exists>j<length B. i = i0 + 2 + 2 * j \<and> isScalar (fst (B ! j)) \<and> keyText (fst (B ! j)) = s"
    then obtain j where "j < length B" "i = i0 + 2 + 2 * j" "isScalar (fst (B ! j))" "keyText (fst (B ! j)) = s"
      by blast
    then show ?thesis by (intro disjI2 exI[of _ "Suc j"]) (simp add: p)
  qed
qed

lemma baseKeysFrom_None:
  "baseKeysFrom i0 (unpairs B) m s = None \<longleftrightarrow>
     m s = None \<and> s \<notin> set (scalarKeys (unpairs B))"
proof (induction B arbitrary: i0 m)
  case Nil then show ?case by (simp add: scalarKeys_def)
next
  case (Cons p B)
  obtain k v where p: "p = (k, v)" by (cases p)
  show ?case
    by (auto simp: p Cons.IH scalarKeys_def isScalar_def keyText_def kv_pairs_unpairs)
qed

lemma baseKeysFrom_distinct:
  "distinct (scalarKeys (unpairs B)) \<Longrightarrow> j < length B \<Longrightarrow> isScalar (fst (B ! j)) \<Longrightarrow>
     baseKeysFrom i0 (unpairs B) m (keyText (fst (B ! j))) = Some (i0 + 2 * j)"
proof (induction B arbitrary: i0 m j)
  case Nil then show ?case by simp
next
  case (Cons p B)
  obtain k v where p: "p = (k, v)" by (cases p)
  show ?case
  proof (cases j)
    case 0
    let ?m' = "(if Kind (info k) = ScalarNode then m(sprint (Value (info k)) \<mapsto> i0) else m)"
    from Cons.prems 0 have sc: "Kind (info k) = ScalarNode" by (simp add: p isScalar_def)
    from Cons.prems sc have notin: "keyText k \<notin> set (scalarKeys (unpairs B))"
      by (simp add: p scalarKeys_def kv_pairs_unpairs isScalar_def)
    have "baseKeysFrom (i0 + 2) (unpairs B) ?m' (keyText k) = Some i0"
    proof (cases "baseKeysFrom (i0 + 2) (unpairs B) ?m' (keyText k)")
      case None
      then show ?thesis using sc by (simp add: baseKeysFrom_None keyText_def)
    next
      case (Some i)
      from baseKeysFrom_Some[OF Some] show ?thesis
      proof
        assume "?m' (keyText k) = Some i"
        then show ?thesis using sc Some by (simp add: keyText_def)
      next
        assume "\<exists>j<length B. i = i0 + 2 + 2 * j \<and> isScalar (fst (B ! j)) \<and> keyText (fst (B ! j)) = keyText k"
        then obtain j' where "j' < length B" "isScalar (fst (B ! j'))" "keyText (fst (B ! j')) = keyText k"
          by blast
        then have "keyText k \<in> set (scalarKeys (unpairs B))"
          by (force simp: scalarKeys_def kv_pairs_unpairs in_set_conv_nth)
        with notin show ?thesis by simp
      qed
    qed
    then show ?thesis using 0 by (simp add: p)
  next
    case (Suc j')
    from Cons.prems have d: "distinct (scalarKeys (unpairs B))"
      by (auto simp: p scalarKeys_def kv_pairs_unpairs split: if_splits)
    from Cons.prems Suc have "j' < length B" "isScalar (fst (B ! j'))" by auto
    from Cons.IH[OF d this, of "i0 + 2"] show ?thesis using Suc by (simp add: p)
  qed
qed


lemma overlayKeyComments_key [simp]:
  "isScalar (overlayKeyComments k ok) = isScalar k"
  "keyText (overlayKeyComments k ok) = keyText k"
  by (simp_all add: overlayKeyComments_def isScalar_def keyText_def)

lemma overlayPair_None: "s \<notin> set (scalarKeys os) \<Longrightarrow> overlayPair os s = None"
  by (force simp: overlayPair_def scalarKeys_def find_None_iff)

lemma overlayPair_Cons:
  "overlayPair (ok # ov # rest) s =
     (if isScalar ok \<and> keyText ok = s then Some (ok, ov) else overlayPair rest s)"
  by (simp add: overlayPair_def)

lemma scalarKeys_Cons:
  "scalarKeys (ok # ov # rest) = (if isScalar ok then keyText ok # scalarKeys rest else scalarKeys rest)"
  by (simp add: scalarKeys_def)

lemma appendedPairs_Cons:
  "appendedPairs bk (ok # ov # rest) =
     (if isScalar ok \<and> bk (keyText ok) = None then clonePair (ok, ov) # appendedPairs bk rest
      else appendedPairs bk rest)"
  by (simp add: appendedPairs_def)

lemma mergedPair_Nil: "mergedPair [] kv = kv" "mergedPair [x] kv = kv"
  by (simp_all add: mergedPair_def overlayPair_def)

lemma mergedPair_Nil_fun: "mergedPair [] = (\<lambda>kv. kv)" "mergedPair [x] = (\<lambda>kv. kv)"
  by (simp_all add: fun_eq_iff mergedPair_Nil)

lemma appendedPairs_Nil: "appendedPairs bk [] = []" "appendedPairs bk [x] = []"
  by (simp_all add: appendedPairs_def)

lemma mergeOverlay_pairs:
  "bk_ok bk nb P \<Longrightarrow> distinct (scalarKeys os) \<Longrightarrow>
     mergeOverlay bk (unpairs P) os =
       unpairs (map (mergedPair os) (take nb P) @ drop nb P @ appendedPairs bk os)"
proof (induction os arbitrary: P rule: kv_pairs.induct)
  case (1 ok ov rest)
  note ok = "1.prems"(1)
  from ok have nb: "nb \<le> length P" by (simp add: bk_ok_def)
  from "1.prems"(2) have drest: "distinct (scalarKeys rest)"
    by (simp add: scalarKeys_Cons split: if_splits)
  show ?case
  proof (cases "isScalar ok")
    case False
    then have "mergeOverlay bk (unpairs P) (ok # ov # rest) = mergeOverlay bk (unpairs P) rest"
      by (simp add: isScalar_def)
    also have "\<dots> = unpairs (map (mergedPair rest) (take nb P) @ drop nb P @ appendedPairs bk rest)"
      by (rule "1.IH"[OF ok drest])
    also have "mergedPair rest = mergedPair (ok # ov # rest)"
      using False by (auto simp: mergedPair_def overlayPair_Cons fun_eq_iff)
    also have "appendedPairs bk rest = appendedPairs bk (ok # ov # rest)"
      using False by (simp add: appendedPairs_Cons)
    finally show ?thesis .
  next
    case True
    define s where "s = keyText ok"
    from True "1.prems"(2) have fresh: "s \<notin> set (scalarKeys rest)"
      by (simp add: scalarKeys_Cons s_def)
    show ?thesis
    proof (cases "bk s")
      case None
      let ?P' = "P @ [clonePair (ok, ov)]"
      have ok': "bk_ok bk nb ?P'"
        unfolding bk_ok_def
      proof (intro conjI allI impI)
        show "nb \<le> length ?P'" using nb by simp
      next
        fix s' i' assume "bk s' = Some i'"
        with ok obtain j' where "j' < nb" "i' = 2 * j'" "isScalar (fst (P ! j'))"
          "keyText (fst (P ! j')) = s'"
          by (auto simp: bk_ok_def)
        then show "\<exists>j<nb. i' = 2 * j \<and> isScalar (fst (?P' ! j)) \<and> keyText (fst (?P' ! j)) = s'"
          using nb by (intro exI[of _ j']) (auto simp: nth_append)
      next
        fix j' assume "j' < nb" "isScalar (fst (?P' ! j'))"
        then show "bk (keyText (fst (?P' ! j'))) = Some (2 * j')"
          using ok nb by (auto simp: bk_ok_def nth_append)
      qed
      have e1: "mergeOverlay bk (unpairs P) (ok # ov # rest) = mergeOverlay bk (unpairs ?P') rest"
        using True None by (simp add: isScalar_def s_def keyText_def unpairs_append clonePair_def)
      have e2: "mergeOverlay bk (unpairs ?P') rest =
          unpairs (map (mergedPair rest) (take nb ?P') @ drop nb ?P' @ appendedPairs bk rest)"
        by (rule "1.IH"[OF ok' drest])
      have e3: "map (mergedPair rest) (take nb P) = map (mergedPair (ok # ov # rest)) (take nb P)"
      proof (rule map_cong[OF refl])
        fix kv assume "kv \<in> set (take nb P)"
        then obtain j where j: "j < nb" "kv = P ! j"
          using nb by (auto simp: in_set_conv_nth)
        have "keyText (fst kv) \<noteq> s" if "isScalar (fst kv)"
          using ok j that None by (auto simp: bk_ok_def)
        then show "mergedPair rest kv = mergedPair (ok # ov # rest) kv"
          by (auto simp: mergedPair_def overlayPair_Cons s_def)
      qed
      have e4: "appendedPairs bk (ok # ov # rest) = clonePair (ok, ov) # appendedPairs bk rest"
        using True None by (simp add: appendedPairs_Cons s_def)
      show ?thesis unfolding e1 e2 e4 using nb by (simp add: e3)
    next
      case (Some i)
      from ok Some obtain j where j: "j < nb" "i = 2 * j" "isScalar (fst (P ! j))"
        "keyText (fst (P ! j)) = s"
        by (auto simp: bk_ok_def)
      from j nb have jP: "j < length P" by simp
      define step where "step = mergedPair (ok # ov # rest) (P ! j)"
      let ?P' = "P[j := step]"
      have step_eq: "step =
          (if Kind (info (snd (P ! j))) = MappingNode \<and> Kind (info ov) = MappingNode
           then (fst (P ! j), mergeNonNil (snd (P ! j)) ov)
           else (overlayKeyComments (fst (P ! j)) ok, Clone ov))"
        using j True by (simp add: step_def mergedPair_def overlayPair_Cons s_def)
      have step_key: "isScalar (fst step) = isScalar (fst (P ! j))"
        "keyText (fst step) = keyText (fst (P ! j))"
        by (simp_all add: step_eq)
      have ok': "bk_ok bk nb ?P'"
        unfolding bk_ok_def
      proof (intro conjI allI impI)
        show "nb \<le> length ?P'" using nb by simp
      next
        fix s' i' assume "bk s' = Some i'"
        with ok obtain j' where "j' < nb" "i' = 2 * j'" "isScalar (fst (P ! j'))"
          "keyText (fst (P ! j')) = s'"
          by (auto simp: bk_ok_def)
        then show "\<exists>j<nb. i' = 2 * j \<and> isScalar (fst (?P' ! j)) \<and> keyText (fst (?P' ! j)) = s'"
          using jP step_key by (intro exI[of _ j']) (auto simp: nth_list_update)
      next
        fix j' assume "j' < nb" "isScalar (fst (?P' ! j'))"
        then show "bk (keyText (fst (?P' ! j'))) = Some (2 * j')"
          using ok jP step_key by (auto simp: bk_ok_def nth_list_update split: if_splits)
      qed
      have e1: "mergeOverlay bk (unpairs P) (ok # ov # rest) = mergeOverlay bk (unpairs ?P') rest"
        using True Some j jP unpairs_nth[OF jP] unpairs_update_snd[OF jP] unpairs_update_both[OF jP]
        by (simp add: isScalar_def s_def keyText_def step_eq)
      have e2: "mergeOverlay bk (unpairs ?P') rest =
          unpairs (map (mergedPair rest) (take nb ?P') @ drop nb ?P' @ appendedPairs bk rest)"
        by (rule "1.IH"[OF ok' drest])
      have e3: "map (mergedPair rest) (take nb ?P') = map (mergedPair (ok # ov # rest)) (take nb P)"
      proof (rule nth_equalityI)
        show "length (map (mergedPair rest) (take nb ?P')) = length (map (mergedPair (ok # ov # rest)) (take nb P))"
          by simp
      next
        fix j' assume "j' < length (map (mergedPair rest) (take nb ?P'))"
        then have j': "j' < nb" "j' < length P" using nb by simp_all
        show "map (mergedPair rest) (take nb ?P') ! j' = map (mergedPair (ok # ov # rest)) (take nb P) ! j'"
        proof (cases "j' = j")
          case True
          have "mergedPair rest step = step"
            using fresh j step_key by (simp add: mergedPair_def overlayPair_None)
          then show ?thesis using True j' by (simp add: step_def)
        next
          case False
          have "keyText (fst (P ! j')) \<noteq> s" if "isScalar (fst (P ! j'))"
          proof
            assume "keyText (fst (P ! j')) = s"
            with ok j' that have "bk s = Some (2 * j')" by (auto simp: bk_ok_def)
            with Some j False show False by simp
          qed
          then have "mergedPair rest (P ! j') = mergedPair (ok # ov # rest) (P ! j')"
            by (auto simp: mergedPair_def overlayPair_Cons s_def)
          then show ?thesis using False j' by simp
        qed
      qed
      have e4: "appendedPairs bk (ok # ov # rest) = appendedPairs bk rest"
        using Some by (simp add: appendedPairs_Cons s_def)
      show ?thesis unfolding e1 e2 e3 e4 using j by simp
    qed
  qed
qed (simp_all add: mergedPair_Nil appendedPairs_Nil bk_ok_def mergedPair_Nil_fun)


lemma clonePair_id: "clonePair kv = kv"
  by (simp add: clonePair_def Clone_id)

lemma baseKeys_ok:
  assumes "distinct (scalarKeys (unpairs B))"
  shows "bk_ok (baseKeys (unpairs B)) (length B) B"
  unfolding bk_ok_def baseKeys_def
proof (intro conjI allI impI)
  fix s i assume "baseKeysFrom 0 (unpairs B) Map.empty s = Some i"
  from baseKeysFrom_Some[OF this]
  show "\<exists>j<length B. i = 2 * j \<and> isScalar (fst (B ! j)) \<and> keyText (fst (B ! j)) = s"
    by simp
next
  fix j assume "j < length B" "isScalar (fst (B ! j))"
  from baseKeysFrom_distinct[OF assms this, of 0 Map.empty]
  show "baseKeysFrom 0 (unpairs B) Map.empty (keyText (fst (B ! j))) = Some (2 * j)" by simp
qed simp

lemma mergeNonNil_key_union:
  assumes "uniqueKeyMapping base" "uniqueKeyMapping overlay"
  shows "mergeNonNil base overlay =
           Node (info base) (keyUnion (children base) (children overlay))"
proof -
  define B where "B = kv_pairs (children base)"
  have bs: "children base = unpairs B"
    using assms(1) by (simp add: B_def uniqueKeyMapping_def unpairs_kv_pairs)
  have d: "distinct (scalarKeys (unpairs B))"
    using assms(1) bs by (simp add: uniqueKeyMapping_def)
  have dov: "distinct (scalarKeys (children overlay))"
    using assms(2) by (simp add: uniqueKeyMapping_def)
  have app: "appendedPairs (baseKeys (unpairs B)) os =
      map clonePair (filter (\<lambda>kv. isScalar (fst kv) \<and> keyText (fst kv) \<notin> set (scalarKeys (unpairs B)))
                       (kv_pairs os))" for os
    by (simp add: appendedPairs_def baseKeys_def baseKeysFrom_None)
  have "mergeNonNil base overlay =
      Node (info base) (mergeOverlay (baseKeys (unpairs B)) (unpairs B) (children overlay))"
    using assms by (simp add: mergeNonNil.simps uniqueKeyMapping_def Clone_id bs)
  also have "mergeOverlay (baseKeys (unpairs B)) (unpairs B) (children overlay) =
      unpairs (map (mergedPair (children overlay)) (take (length B) B) @ drop (length B) B
               @ appendedPairs (baseKeys (unpairs B)) (children overlay))"
    by (rule mergeOverlay_pairs[OF baseKeys_ok[OF d] dov])
  also have "\<dots> = keyUnion (children base) (children overlay)"
    by (simp add: keyUnion_def app bs kv_pairs_unpairs clonePair_id comp_def)
  finally show ?thesis .
qed

lemma example_unique:
  "uniqueKeyMapping example_base" "uniqueKeyMapping example_overlay"
  by (simp_all add: uniqueKeyMapping_def example_base_def example_overlay_def mapping_of_def
      scalar_str_def scalar_int_def NewScalarNode_def NewNodeInfo_def scalarKeys_def
      isScalar_def keyText_def)

lemma find_map_pres:
  assumes "\<And>x. P (f x) = P x"
  shows "find P (map f xs) = map_option f (find P xs)"
  using assms by (induction xs) auto

lemma find_append_Some: "find P xs = Some x \<Longrightarrow> find P (xs @ ys) = Some x"
  by (induction xs) (auto split: if_splits)

lemma mergedPair_key:
  "isScalar (fst (mergedPair os kv)) = isScalar (fst kv)"
  "keyText (fst (mergedPair os kv)) = keyText (fst kv)"
  by (auto simp: mergedPair_def split: option.splits)

lemma GetMapValue_merged:
  assumes "uniqueKeyMapping base" "uniqueKeyMapping overlay"
    and b: "GetMapValue base key = Some baseValue"
    and ov: "GetMapValue overlay key = Some overlayValue"
    and nm: "\<not> (Kind (info baseValue) = MappingNode \<and> Kind (info overlayValue) = MappingNode)"
  shows "GetMapValue (mergeNonNil base overlay) key = Some (Clone overlayValue)"
proof -
  let ?P = "\<lambda>kv. Kind (info (fst kv)) = ScalarNode \<and> sprint (Value (info (fst kv))) = key"
  have P: "?P kv = (isScalar (fst kv) \<and> keyText (fst kv) = key)" for kv
    by (simp add: isScalar_def keyText_def)
  from b obtain bk where fb: "find ?P (kv_pairs (children base)) = Some (bk, baseValue)"
    by (auto simp: GetMapValue_def split: if_splits)
  from ov obtain ok where fo: "find ?P (kv_pairs (children overlay)) = Some (ok, overlayValue)"
    by (auto simp: GetMapValue_def split: if_splits)
  have find_sat: "find Q xs = Some x \<Longrightarrow> Q x" for Q :: "node \<times> node \<Rightarrow> bool" and xs x
    by (induction xs) (auto split: if_splits)
  from find_sat[OF fb] have bkP: "isScalar bk" "keyText bk = key"
    by (simp_all add: isScalar_def keyText_def)
  have op: "overlayPair (children overlay) key = Some (ok, overlayValue)"
    using fo by (simp add: overlayPair_def P)
  have mp: "mergedPair (children overlay) (bk, baseValue) =
      (overlayKeyComments bk ok, Clone overlayValue)"
    using bkP op nm by (auto simp: mergedPair_def)
  have pres: "?P ((mergedPair (children overlay) \<circ> clonePair) kv) = ?P kv" for kv
    by (simp add: P mergedPair_key clonePair_id)
  have "find ?P (map (mergedPair (children overlay) \<circ> clonePair) (kv_pairs (children base)) @ rest)
      = Some (overlayKeyComments bk ok, Clone overlayValue)" for rest
  proof (rule find_append_Some)
    show "find ?P (map (mergedPair (children overlay) \<circ> clonePair) (kv_pairs (children base)))
      = Some (overlayKeyComments bk ok, Clone overlayValue)"
      using fb mp by (simp add: find_map_pres[of ?P, OF pres] clonePair_id)
  qed
  then show ?thesis
    using assms(1) by (simp add: mergeNonNil_key_union[OF assms(1,2)] GetMapValue_def keyUnion_def
        kv_pairs_unpairs uniqueKeyMapping_def)
qed

subsection \<open>Claims on the merge engine\<close>

text \<open>
  Claim C2, as amended. Let base and overlay be Mapping nodes in which the Scalar keys
  render to pairwise distinct text and the children come in pairs
  (\<open>uniqueKeyMapping\<close>). Then \<^verbatim>\<open>MergeNodes(base, overlay)\<close> is base's node with the pairs
  \<open>keyUnion\<close>: every base pair is kept, cloned, in base order; a base pair whose Scalar key
  is also a Scalar key of overlay takes overlay's value, merged recursively only when both
  values are Mappings and a clone of overlay's value otherwise (the key then takes the
  comments of overlay's key, class by class, where overlay's key has any); the overlay
  pairs whose Scalar key base lacks follow, cloned, in overlay's order; an overlay pair
  whose key is not a Scalar is skipped.
\<close>

theorem merge_mappings_key_union:
  assumes "uniqueKeyMapping base" and "uniqueKeyMapping overlay"
  shows "MergeNodes (Some base) (Some overlay) =
           Some (Node (info base) (keyUnion (children base) (children overlay)))"
  using assms by (simp add: MergeNodes_def mergeNonNil_key_union)

text \<open>The instance of the specification: base \<open>{a: 1, b: 2}\<close> and overlay \<open>{b: 3, c: 4}\<close>
  merge to \<open>{a: 1, b: 3, c: 4}\<close>.\<close>

theorem merge_mappings_key_union_witness:
  "MergeNodes (Some example_base) (Some example_overlay) =
     Some (mapping_of [scalar_str ''a'', scalar_int 1, scalar_str ''b'', scalar_int 3,
                       scalar_str ''c'', scalar_int 4])"
proof -
  have "keyUnion (children example_base) (children example_overlay) =
      [scalar_str ''a'', scalar_int 1, scalar_str ''b'', scalar_int 3,
       scalar_str ''c'', scalar_int 4]"
    by (simp add: keyUnion_def example_base_def example_overlay_def mapping_of_def
      scalar_str_def scalar_int_def NewScalarNode_def NewNodeInfo_def scalarKeys_def
      isScalar_def keyText_def mergedPair_def overlayPair_def clonePair_def
      overlayKeyComments_def)
  then show ?thesis
    using merge_mappings_key_union[OF example_unique]
    by (simp add: example_base_def mapping_of_def)
qed

text \<open>
  Claim C2 as stated fails for a mapping with a key that is not a Scalar: overlay
  \<open>{[x]: 1}\<close> merged into the empty mapping gives the empty mapping, where the union of
  the specification appends the pair.
\<close>

theorem merge_mappings_counterexample:
  "MergeNodes (Some (mapping_of [])) (Some (mapping_of [complex_key, scalar_int 1]))
     = Some (mapping_of [])
   \<and> specKeyUnion (children (mapping_of [])) (children (mapping_of [complex_key, scalar_int 1]))
       = [complex_key, scalar_int 1]
   \<and> MergeNodes (Some (mapping_of [])) (Some (mapping_of [complex_key, scalar_int 1]))
       \<noteq> Some (Node (info (mapping_of []))
            (specKeyUnion (children (mapping_of []))
               (children (mapping_of [complex_key, scalar_int 1]))))"
  by (simp add: MergeNodes_def mergeNonNil.simps mapping_of_def complex_key_def scalar_str_def
      scalar_int_def NewScalarNode_def NewNodeInfo_def baseKeys_def specKeyUnion_def
      clonePair_def)

text \<open>
  Claim C3, as amended. Let base and overlay be Mapping nodes as above that both hold the
  key \<open>key\<close>, with Scalar values \<open>baseValue\<close> and \<open>overlayValue\<close>. In
  \<^verbatim>\<open>MergeNodes(base, overlay)\<close> the value node for \<open>key\<close> is a clone of overlay's value node:
  it has overlay's value and overlay's comments, so a head comment that only base's value
  node carries is not retained. Base's head comment is retained where the two Scalar nodes
  themselves are merged: \<^verbatim>\<open>MergeNodes(baseValue, overlayValue)\<close> has overlay's value, and
  base's head comment when overlay's is empty.
\<close>

theorem merge_value_comments:
  assumes "uniqueKeyMapping base" and "uniqueKeyMapping overlay"
    and "GetMapValue base key = Some baseValue"
    and "GetMapValue overlay key = Some overlayValue"
    and "Kind (info baseValue) = ScalarNode" and "Kind (info overlayValue) = ScalarNode"
  shows "Option.bind (MergeNodes (Some base) (Some overlay)) (\<lambda>r. GetMapValue r key)
           = Some (Clone overlayValue)
       \<and> map_option (\<lambda>m. (Value (info m), HeadComment (info m)))
            (MergeNodes (Some baseValue) (Some overlayValue))
           = Some (Value (info overlayValue),
                   if HeadComment (info overlayValue) = [] then HeadComment (info baseValue)
                   else HeadComment (info overlayValue))"
proof
  have "\<not> (Kind (info baseValue) = MappingNode \<and> Kind (info overlayValue) = MappingNode)"
    using assms(5) by simp
  from GetMapValue_merged[OF assms(1-4) this]
  show "Option.bind (MergeNodes (Some base) (Some overlay)) (\<lambda>r. GetMapValue r key)
           = Some (Clone overlayValue)"
    by (simp add: MergeNodes_def)
next
  show "map_option (\<lambda>m. (Value (info m), HeadComment (info m)))
            (MergeNodes (Some baseValue) (Some overlayValue))
           = Some (Value (info overlayValue),
                   if HeadComment (info overlayValue) = [] then HeadComment (info baseValue)
                   else HeadComment (info overlayValue))"
    using assms(5,6)
    by (simp add: MergeNodes_def mergeNonNil.simps baseCommentFallback_def Clone_id)
qed

lemma comment_example_unique:
  "uniqueKeyMapping comment_base" "uniqueKeyMapping comment_overlay"
  "GetMapValue comment_base ''b'' = Some commented_two"
  "GetMapValue comment_overlay ''b'' = Some (scalar_int 3)"
  "Kind (info commented_two) = ScalarNode" "Kind (info (scalar_int 3)) = ScalarNode"
  by (simp_all add: uniqueKeyMapping_def comment_base_def comment_overlay_def mapping_of_def
      scalar_str_def scalar_int_def NewScalarNode_def NewNodeInfo_def scalarKeys_def
      isScalar_def keyText_def commented_two_def GetMapValue_def)

theorem merge_value_comments_witness:
  "Option.bind (MergeNodes (Some comment_base) (Some comment_overlay))
       (\<lambda>r. GetMapValue r ''b'') = Some (scalar_int 3)
   \<and> map_option (\<lambda>m. (Value (info m), HeadComment (info m)))
        (MergeNodes (Some commented_two) (Some (scalar_int 3)))
       = Some (VInt 3, [''# keep''])"
  using merge_value_comments[OF comment_example_unique]
  by (simp add: Clone_id scalar_int_def NewScalarNode_def NewNodeInfo_def commented_two_def)

text \<open>
  Claim C3 as stated fails: base \<open>{b: 2}\<close> whose value node carries the head comment
  \<open># keep\<close>, merged with overlay \<open>{b: 3}\<close>, gives a value node for \<open>b\<close> with the value 3
  and no head comment.
\<close>

theorem merge_value_comments_counterexample:
  "GetMapValue comment_base ''b'' = Some commented_two
   \<and> HeadComment (info commented_two) = [''# keep'']
   \<and> GetMapValue comment_overlay ''b'' = Some (scalar_int 3)
   \<and> HeadComment (info (scalar_int 3)) = []
   \<and> (case MergeNodes (Some comment_base) (Some comment_overlay) of
         None \<Rightarrow> False
       | Some r \<Rightarrow>
           (case GetMapValue r ''b'' of
              None \<Rightarrow> False
            | Some v \<Rightarrow> Value (info v) = VInt 3 \<and> HeadComment (info v) = []
                 \<and> HeadComment (info v) \<noteq> HeadComment (info commented_two)))"
  by (simp add: MergeNodes_def mergeNonNil.simps comment_base_def comment_overlay_def
      mapping_of_def scalar_str_def scalar_int_def NewScalarNode_def NewNodeInfo_def
      commented_two_def GetMapValue_def baseKeys_def overlayKeyComments_def)

section \<open>The node graph in a store\<close>

text \<open>
  A \<^verbatim>\<open>*Node\<close> is an address, the store is the list of the nodes allocated so far, and a
  new node takes the next address. \<^verbatim>\<open>Alias\<close>, \<^verbatim>\<open>Parent\<close> and \<^verbatim>\<open>Key\<close> may be nil. Slices are
  kept as values: the code never writes an element of a comment slice, and it writes
  elements of a \<^verbatim>\<open>Children\<close> slice only through the node that owns it.

  Recursion that follows pointers (cloning, merging, selecting, flattening, applying a
  pipeline) need not end on a cyclic graph. These functions take a bound on the depth of
  the calls and return \<open>None\<close> when it is used up.
\<close>

type_synonym addr = nat

record hnode = node_info +
  Alias :: "addr option"
  Parent :: "addr option"
  Children :: "addr list"
  Key :: "addr option"

type_synonym store = "hnode list"

datatype error = Error string | NilDereference

definition upd :: "store \<Rightarrow> addr \<Rightarrow> (hnode \<Rightarrow> hnode) \<Rightarrow> store" where
  "upd h a f = h[a := f (h ! a)]"

definition newHNode :: "NodeKind \<Rightarrow> hnode" where
  "newHNode k = \<lparr>Kind = k, Style = DefaultStyle, Tag = [], Value = VNil, Anchor = [],
     Line = 0, Column = 0, HeadComment = [], LineComment = [], FootComment = [],
     EmptyLines = [], Metadata = Map.empty,
     Alias = None, Parent = None, Children = [], Key = None\<rparr>"

text \<open>\<^verbatim>\<open>NewNode\<close> and \<^verbatim>\<open>NewScalarNode\<close> in the store.\<close>

definition NewNode_st :: "store \<Rightarrow> NodeKind \<Rightarrow> store \<times> addr" where
  "NewNode_st h k = (h @ [newHNode k], length h)"

definition NewScalarNode_st :: "store \<Rightarrow> val \<Rightarrow> store \<times> addr" where
  "NewScalarNode_st h v = (h @ [(newHNode ScalarNode)\<lparr>Value := v\<rparr>], length h)"

definition AddChild :: "store \<Rightarrow> addr \<Rightarrow> addr option \<Rightarrow> store" where
  "AddChild h n child =
     (case child of
        None \<Rightarrow> h
      | Some c \<Rightarrow>
          (let h1 = upd h c (\<lambda>x. x\<lparr>Parent := Some n\<rparr>)
           in upd h1 n (\<lambda>x. x\<lparr>Children := Children x @ [c]\<rparr>)))"

text \<open>\<^verbatim>\<open>AddKeyValue\<close>: with a key and a nil value the code has set \<^verbatim>\<open>key.Parent\<close> when it
  dereferences the value.\<close>

definition AddKeyValue :: "store \<Rightarrow> addr \<Rightarrow> addr option \<Rightarrow> addr option \<Rightarrow> store \<times> error option" where
  "AddKeyValue h n key valueNode =
     (if Kind (h ! n) \<noteq> MappingNode then
        (h, Some (Error ''can only add key-value pairs to mapping nodes''))
      else
        (case key of
           None \<Rightarrow> (h, None)
         | Some k \<Rightarrow>
             (let h1 = upd h k (\<lambda>x. x\<lparr>Parent := Some n\<rparr>)
              in case valueNode of
                   None \<Rightarrow> (h1, Some NilDereference)
                 | Some v \<Rightarrow>
                     (let h2 = upd h1 v (\<lambda>x. x\<lparr>Parent := Some n\<rparr>);
                          h3 = upd h2 v (\<lambda>x. x\<lparr>Key := Some k\<rparr>)
                      in (upd h3 n (\<lambda>x. x\<lparr>Children := Children x @ [k, v]\<rparr>), None)))))"

text \<open>The first index at which \<^verbatim>\<open>n.Parent.Children\<close> holds \<open>n\<close>.\<close>

fun indexOf :: "addr \<Rightarrow> addr list \<Rightarrow> nat option" where
  "indexOf n [] = None"
| "indexOf n (c # cs) = (if c = n then Some 0 else map_option Suc (indexOf n cs))"

definition Remove :: "store \<Rightarrow> addr \<Rightarrow> store \<times> error option" where
  "Remove h n =
     (case Parent (h ! n) of
        None \<Rightarrow> (h, Some (Error ''cannot remove root node''))
      | Some p \<Rightarrow>
          (case indexOf n (Children (h ! p)) of
             None \<Rightarrow> (h, Some (Error ''node not found in parent's children''))
           | Some i \<Rightarrow>
               (let h1 = upd h p (\<lambda>x. x\<lparr>Children := take i (Children x) @ drop (i + 1) (Children x)\<rparr>)
                in (upd h1 n (\<lambda>x. x\<lparr>Parent := None\<rparr>), None))))"

text \<open>\<^verbatim>\<open>ReplaceWith\<close>, for a replacement that is not nil (the code dereferences it).\<close>

definition ReplaceWith :: "store \<Rightarrow> addr \<Rightarrow> addr \<Rightarrow> store \<times> error option" where
  "ReplaceWith h n replacement =
     (case Parent (h ! n) of
        None \<Rightarrow> (h, Some (Error ''cannot replace root node''))
      | Some p \<Rightarrow>
          (case indexOf n (Children (h ! p)) of
             None \<Rightarrow> (h, Some (Error ''node not found in parent's children''))
           | Some i \<Rightarrow>
               (let h1 = upd h p (\<lambda>x. x\<lparr>Children := (Children x)[i := replacement]\<rparr>);
                    h2 = upd h1 replacement (\<lambda>x. x\<lparr>Parent := Parent (h1 ! n)\<rparr>);
                    h3 = upd h2 replacement (\<lambda>x. x\<lparr>Key := Key (h2 ! n)\<rparr>)
                in (upd h3 n (\<lambda>x. x\<lparr>Parent := None\<rparr>), None))))"

subsection \<open>\<^verbatim>\<open>Clone\<close>\<close>

text \<open>
  \<^verbatim>\<open>cloneWithSeen\<close> for a receiver that is not nil. The clone is allocated with the fields of
  \<open>n\<close>, no children, and nil \<^verbatim>\<open>Alias\<close>, \<^verbatim>\<open>Parent\<close> and \<^verbatim>\<open>Key\<close>; it is entered in \<open>seen\<close>;
  then the children are cloned in order and appended, and last the key.
\<close>

definition cloneFields :: "hnode \<Rightarrow> hnode" where
  "cloneFields n = \<lparr>Kind = Kind n, Style = Style n, Tag = Tag n, Value = Value n,
     Anchor = Anchor n, Line = Line n, Column = Column n, HeadComment = HeadComment n,
     LineComment = LineComment n, FootComment = FootComment n, EmptyLines = EmptyLines n,
     Metadata = Metadata n, Alias = None, Parent = None, Children = [], Key = None\<rparr>"

fun cloneWithSeen ::
    "nat \<Rightarrow> store \<Rightarrow> (addr \<rightharpoonup> addr) \<Rightarrow> addr \<Rightarrow> (store \<times> (addr \<rightharpoonup> addr) \<times> addr) option"
  and cloneChildren ::
    "nat \<Rightarrow> store \<Rightarrow> (addr \<rightharpoonup> addr) \<Rightarrow> addr \<Rightarrow> addr list \<Rightarrow> (store \<times> (addr \<rightharpoonup> addr)) option"
where
  "cloneWithSeen 0 h seen n = None"
| "cloneWithSeen (Suc fuel) h seen n =
     (case seen n of
        Some clone \<Rightarrow> Some (h, seen, clone)
      | None \<Rightarrow>
          (let clone = length h;
               h1 = h @ [cloneFields (h ! n)]
           in case cloneChildren fuel h1 (seen(n \<mapsto> clone)) clone (Children (h1 ! n)) of
                None \<Rightarrow> None
              | Some (h2, seen2) \<Rightarrow>
                  (case Key (h2 ! n) of
                     None \<Rightarrow> Some (h2, seen2, clone)
                   | Some k \<Rightarrow>
                       (case cloneWithSeen fuel h2 seen2 k of
                          None \<Rightarrow> None
                        | Some (h3, seen3, kc) \<Rightarrow>
                            Some (upd h3 clone (\<lambda>x. x\<lparr>Key := Some kc\<rparr>), seen3, clone)))))"
| "cloneChildren fuel h seen clone [] = Some (h, seen)"
| "cloneChildren fuel h seen clone (child # rest) =
     (case cloneWithSeen fuel h seen child of
        None \<Rightarrow> None
      | Some (h1, seen1, childClone) \<Rightarrow>
          (let h2 = upd h1 childClone (\<lambda>x. x\<lparr>Parent := Some clone\<rparr>);
               h3 = upd h2 clone (\<lambda>x. x\<lparr>Children := Children x @ [childClone]\<rparr>)
           in cloneChildren fuel h3 seen1 clone rest))"

text \<open>\<^verbatim>\<open>n.Clone()\<close> for \<open>n\<close> not nil, and for a receiver that may be nil.\<close>

definition cloneNode :: "nat \<Rightarrow> store \<Rightarrow> addr \<Rightarrow> (store \<times> addr) option" where
  "cloneNode fuel h n =
     (case cloneWithSeen fuel h Map.empty n of
        None \<Rightarrow> None
      | Some (h', seen, clone) \<Rightarrow> Some (h', clone))"


subsection \<open>\<^verbatim>\<open>MergeNodes\<close> in the store\<close>

fun baseKeysFrom_st :: "store \<Rightarrow> nat \<Rightarrow> addr list \<Rightarrow> (string \<rightharpoonup> nat) \<Rightarrow> (string \<rightharpoonup> nat)" where
  "baseKeysFrom_st h i (keyNode # valueNode # rest) m =
     baseKeysFrom_st h (i + 2) rest
       (if Kind (h ! keyNode) = ScalarNode then m(sprint (Value (h ! keyNode)) \<mapsto> i) else m)"
| "baseKeysFrom_st h i cs m = m"

definition overlayKeyComments_st :: "hnode \<Rightarrow> hnode \<Rightarrow> hnode" where
  "overlayKeyComments_st overlayKey resultKey =
     resultKey
       \<lparr>HeadComment := (if HeadComment overlayKey \<noteq> [] then HeadComment overlayKey
                         else HeadComment resultKey),
        LineComment := (if LineComment overlayKey \<noteq> [] then LineComment overlayKey
                         else LineComment resultKey),
        FootComment := (if FootComment overlayKey \<noteq> [] then FootComment overlayKey
                         else FootComment resultKey)\<rparr>"

definition baseCommentFallback_st :: "hnode \<Rightarrow> hnode \<Rightarrow> hnode" where
  "baseCommentFallback_st base result =
     result
       \<lparr>HeadComment := (if HeadComment result = [] \<and> HeadComment base \<noteq> []
                         then HeadComment base else HeadComment result),
        LineComment := (if LineComment result = [] \<and> LineComment base \<noteq> []
                         then LineComment base else LineComment result),
        FootComment := (if FootComment result = [] \<and> FootComment base \<noteq> []
                         then FootComment base else FootComment result)\<rparr>"

text \<open>The loop of the Sequence branch: clone each item of overlay and add it to the result.\<close>

fun appendClones :: "nat \<Rightarrow> store \<Rightarrow> addr \<Rightarrow> addr list \<Rightarrow> store option" where
  "appendClones fuel h result [] = Some h"
| "appendClones fuel h result (item # rest) =
     (case cloneNode fuel h item of
        None \<Rightarrow> None
      | Some (h1, cloned) \<Rightarrow> appendClones fuel (AddChild h1 result (Some cloned)) result rest)"

fun mergeNonNil_st :: "nat \<Rightarrow> store \<Rightarrow> addr \<Rightarrow> addr \<Rightarrow> (store \<times> addr) option"
  and mergeOverlay_st ::
    "nat \<Rightarrow> store \<Rightarrow> (string \<rightharpoonup> nat) \<Rightarrow> addr \<Rightarrow> addr list \<Rightarrow> store option"
where
  "mergeNonNil_st 0 h base overlay = None"
| "mergeNonNil_st (Suc fuel) h base overlay =
     (case cloneNode fuel h base of
        None \<Rightarrow> None
      | Some (h1, result) \<Rightarrow>
          if Kind (h1 ! base) = MappingNode \<and> Kind (h1 ! overlay) = MappingNode then
            (case mergeOverlay_st fuel h1
                    (baseKeysFrom_st h1 0 (Children (h1 ! base)) Map.empty)
                    result (Children (h1 ! overlay)) of
               None \<Rightarrow> None
             | Some h2 \<Rightarrow> Some (h2, result))
          else if Kind (h1 ! base) = SequenceNode \<and> Kind (h1 ! overlay) = SequenceNode then
            (case appendClones fuel h1 result (Children (h1 ! overlay)) of
               None \<Rightarrow> None
             | Some h2 \<Rightarrow> Some (h2, result))
          else
            (case cloneNode fuel h1 overlay of
               None \<Rightarrow> None
             | Some (h2, result2) \<Rightarrow>
                 Some (upd h2 result2 (baseCommentFallback_st (h2 ! base)), result2)))"
| "mergeOverlay_st fuel h bk result (overlayKey # overlayValue # rest) =
     (if Kind (h ! overlayKey) = ScalarNode then
        (case bk (sprint (Value (h ! overlayKey))) of
           Some baseIdx \<Rightarrow>
             (let baseValue = Children (h ! result) ! (baseIdx + 1)
              in if Kind (h ! baseValue) = MappingNode \<and> Kind (h ! overlayValue) = MappingNode then
                   (case mergeNonNil_st fuel h baseValue overlayValue of
                      None \<Rightarrow> None
                    | Some (h1, merged) \<Rightarrow>
                        mergeOverlay_st fuel
                          (upd h1 result (\<lambda>x. x\<lparr>Children := (Children x)[baseIdx + 1 := merged]\<rparr>))
                          bk result rest)
                 else
                   (case cloneNode fuel h overlayValue of
                      None \<Rightarrow> None
                    | Some (h1, clonedValue) \<Rightarrow>
                        (case cloneNode fuel h1 (Children (h1 ! result) ! baseIdx) of
                           None \<Rightarrow> None
                         | Some (h2, keyClone) \<Rightarrow>
                             (let h3 = upd h2 clonedValue (\<lambda>x. x\<lparr>Key := Some keyClone\<rparr>);
                                  h4 = upd h3 (Children (h3 ! result) ! baseIdx)
                                         (overlayKeyComments_st (h3 ! overlayKey));
                                  h5 = upd h4 result
                                         (\<lambda>x. x\<lparr>Children := (Children x)[baseIdx + 1 := clonedValue]\<rparr>)
                              in mergeOverlay_st fuel h5 bk result rest))))
         | None \<Rightarrow>
             (case cloneNode fuel h overlayKey of
                None \<Rightarrow> None
              | Some (h1, clonedKey) \<Rightarrow>
                  (case cloneNode fuel h1 overlayValue of
                     None \<Rightarrow> None
                   | Some (h2, clonedValue) \<Rightarrow>
                       (let h3 = upd h2 clonedKey (\<lambda>x. x\<lparr>Parent := Some result\<rparr>);
                            h4 = upd h3 clonedValue (\<lambda>x. x\<lparr>Parent := Some result\<rparr>);
                            h5 = upd h4 clonedValue (\<lambda>x. x\<lparr>Key := Some clonedKey\<rparr>);
                            h6 = upd h5 result
                                   (\<lambda>x. x\<lparr>Children := Children x @ [clonedKey, clonedValue]\<rparr>)
                        in mergeOverlay_st fuel h6 bk result rest))))
      else mergeOverlay_st fuel h bk result rest)"
| "mergeOverlay_st fuel h bk result [] = Some h"
| "mergeOverlay_st fuel h bk result [overlayKey] = Some h"


section \<open>The transform pipeline of advanced.go\<close>

text \<open>
  A pipeline is the list of the operations queued by the methods of \<^verbatim>\<open>TransformDSL\<close>; the
  fields of \<^verbatim>\<open>Transform\<close> are not exported, so these eight are all there are, and the name
  of each is fixed by its method. A predicate reads the store; the function of \<^verbatim>\<open>Map\<close> may
  also write it.
\<close>

datatype Transform =
    Select "store \<Rightarrow> addr \<Rightarrow> bool"
  | Map "store \<Rightarrow> addr \<Rightarrow> store \<times> addr option"
  | SetValue val
  | AddComment string
  | RemoveKey string
  | RenameKey string string
  | SortKeys
  | Flatten

fun transformName :: "Transform \<Rightarrow> string" where
  "transformName (Select p) = ''select''"
| "transformName (Map fn) = ''map''"
| "transformName (SetValue v) = ''setValue''"
| "transformName (AddComment c) = ''addComment''"
| "transformName (RemoveKey k) = ''removeKey''"
| "transformName (RenameKey a b) = ''renameKey''"
| "transformName SortKeys = ''sortKeys''"
| "transformName Flatten = ''flatten''"

subsection \<open>\<^verbatim>\<open>selectNode\<close>\<close>

text \<open>
  \<^verbatim>\<open>selectNode\<close> works on the node it is given, not on a clone. For each pair of a Mapping it
  first stores the key in \<^verbatim>\<open>valueNode.Key\<close>, then asks the predicate. The result is either
  the node itself, or a clone of the node whose \<^verbatim>\<open>Children\<close> are nodes of the input.
\<close>

fun selectNode ::
    "nat \<Rightarrow> store \<Rightarrow> (store \<Rightarrow> addr \<Rightarrow> bool) \<Rightarrow> addr option \<Rightarrow> (store \<times> (error + addr option)) option"
  and selectPairs ::
    "nat \<Rightarrow> store \<Rightarrow> (store \<Rightarrow> addr \<Rightarrow> bool) \<Rightarrow> addr list \<Rightarrow> addr list
       \<Rightarrow> (store \<times> (error + addr list)) option"
where
  "selectNode 0 h predicate node = None"
| "selectNode (Suc fuel) h predicate None = Some (h, Inr None)"
| "selectNode (Suc fuel) h predicate (Some node) =
     (if Kind (h ! node) = DocumentNode then
        (if Children (h ! node) \<noteq> [] then
           (case selectNode fuel h predicate (Some (Children (h ! node) ! 0)) of
              None \<Rightarrow> None
            | Some (h1, Inl err) \<Rightarrow> Some (h1, Inl err)
            | Some (h1, Inr None) \<Rightarrow> Some (h1, Inr None)
            | Some (h1, Inr (Some filteredChild)) \<Rightarrow>
                (case cloneNode fuel h1 node of
                   None \<Rightarrow> None
                 | Some (h2, result) \<Rightarrow>
                     Some (upd h2 result (\<lambda>x. x\<lparr>Children := [filteredChild]\<rparr>), Inr (Some result))))
         else Some (h, Inr None))
      else if Kind (h ! node) = MappingNode then
        (case selectPairs fuel h predicate (Children (h ! node)) [] of
           None \<Rightarrow> None
         | Some (h1, Inl err) \<Rightarrow> Some (h1, Inl err)
         | Some (h1, Inr newChildren) \<Rightarrow>
             (if newChildren \<noteq> [] then
                (case cloneNode fuel h1 node of
                   None \<Rightarrow> None
                 | Some (h2, result) \<Rightarrow>
                     Some (upd h2 result (\<lambda>x. x\<lparr>Children := newChildren\<rparr>), Inr (Some result)))
              else Some (h1, Inr None)))
      else if predicate h node then Some (h, Inr (Some node))
      else Some (h, Inr None))"
| "selectPairs fuel h predicate (keyNode # valueNode # rest) newChildren =
     (let h1 = upd h valueNode (\<lambda>x. x\<lparr>Key := Some keyNode\<rparr>)
      in if predicate h1 valueNode then
           selectPairs fuel h1 predicate rest (newChildren @ [keyNode, valueNode])
         else if Kind (h1 ! valueNode) = MappingNode then
           (case selectNode fuel h1 predicate (Some valueNode) of
              None \<Rightarrow> None
            | Some (h2, Inl err) \<Rightarrow> Some (h2, Inl err)
            | Some (h2, Inr None) \<Rightarrow> selectPairs fuel h2 predicate rest newChildren
            | Some (h2, Inr (Some filteredValue)) \<Rightarrow>
                (if Children (h2 ! filteredValue) \<noteq> [] then
                   selectPairs fuel h2 predicate rest (newChildren @ [keyNode, filteredValue])
                 else selectPairs fuel h2 predicate rest newChildren))
         else selectPairs fuel h1 predicate rest newChildren)"
| "selectPairs fuel h predicate [] newChildren = Some (h, Inr newChildren)"
| "selectPairs fuel h predicate [keyNode] newChildren = Some (h, Inr newChildren)"

subsection \<open>The node operations\<close>

text \<open>\<^verbatim>\<open>removeKey\<close>: the pairs whose key is not a Scalar rendering to \<open>key\<close>.\<close>

fun removeKeyChildren :: "store \<Rightarrow> string \<Rightarrow> addr list \<Rightarrow> addr list" where
  "removeKeyChildren h key (keyNode # valueNode # rest) =
     (if Kind (h ! keyNode) \<noteq> ScalarNode \<or> sprint (Value (h ! keyNode)) \<noteq> key
      then keyNode # valueNode # removeKeyChildren h key rest
      else removeKeyChildren h key rest)"
| "removeKeyChildren h key cs = []"

text \<open>\<^verbatim>\<open>renameKey\<close>: the first Scalar key rendering to \<open>oldKey\<close>, if any.\<close>

fun renameTarget :: "store \<Rightarrow> string \<Rightarrow> addr list \<Rightarrow> addr option" where
  "renameTarget h oldKey (keyNode # valueNode # rest) =
     (if Kind (h ! keyNode) = ScalarNode \<and> sprint (Value (h ! keyNode)) = oldKey
      then Some keyNode else renameTarget h oldKey rest)"
| "renameTarget h oldKey cs = None"

text \<open>
  \<^verbatim>\<open>sortKeys\<close>. The code runs \<^verbatim>\<open>for i\<close> over the pairs and, inside, \<^verbatim>\<open>for j := i + 1\<close>,
  swapping \<^verbatim>\<open>pairs[i]\<close> and \<^verbatim>\<open>pairs[j]\<close> when the text of the first key is greater.
  \<open>sortPass x ys\<close> is the inner loop for one \<open>i\<close>: \<open>x\<close> is \<^verbatim>\<open>pairs[i]\<close>, \<open>ys\<close> the
  pairs after it; it returns what ends at \<open>i\<close> and the pairs after it. \<open>sortPairs\<close> is the
  outer loop. Strings compare byte by byte, as in Go.
\<close>

fun sortPass :: "('a \<Rightarrow> string) \<Rightarrow> 'a \<Rightarrow> 'a list \<Rightarrow> 'a \<times> 'a list" where
  "sortPass kf x [] = (x, [])"
| "sortPass kf x (y # ys) =
     (if kf x > kf y
      then (case sortPass kf y ys of (m, r) \<Rightarrow> (m, x # r))
      else (case sortPass kf x ys of (m, r) \<Rightarrow> (m, y # r)))"

lemma sortPass_length: "length (snd (sortPass kf x ys)) = length ys"
  by (induction ys arbitrary: x) (simp_all add: case_prod_beta)

function sortPairs :: "('a \<Rightarrow> string) \<Rightarrow> 'a list \<Rightarrow> 'a list" where
  "sortPairs kf [] = []"
| "sortPairs kf (x # xs) = fst (sortPass kf x xs) # sortPairs kf (snd (sortPass kf x xs))"
  by pat_completeness auto
termination
  by (relation "measure (\<lambda>(kf, xs). length xs)") (auto simp: sortPass_length)

definition sortKeysChildren :: "store \<Rightarrow> addr list \<Rightarrow> addr list" where
  "sortKeysChildren h cs =
     unpairs (sortPairs (\<lambda>pair. sprint (Value (h ! fst pair))) (kv_pairs cs))"

text \<open>
  \<^verbatim>\<open>flattenRecursive\<close> fills the map from dotted paths to the nodes that are not Mappings.
\<close>

fun flattenRecursive ::
    "nat \<Rightarrow> store \<Rightarrow> addr \<Rightarrow> string \<Rightarrow> (string \<times> addr) list \<Rightarrow> (string \<times> addr) list option"
  and flattenPairs ::
    "nat \<Rightarrow> store \<Rightarrow> addr list \<Rightarrow> string \<Rightarrow> (string \<times> addr) list \<Rightarrow> (string \<times> addr) list option"
where
  "flattenRecursive 0 h node prefix result = None"
| "flattenRecursive (Suc fuel) h node prefix result =
     (if Kind (h ! node) \<noteq> MappingNode then
        Some (if prefix \<noteq> [] then map_put result prefix node else result)
      else flattenPairs fuel h (Children (h ! node)) prefix result)"
| "flattenPairs fuel h (keyNode # valueNode # rest) prefix result =
     (if Kind (h ! keyNode) = ScalarNode then
        (let key = sprint (Value (h ! keyNode));
             newPrefix = (if prefix \<noteq> [] then prefix @ ''.'' @ key else key)
         in if Kind (h ! valueNode) = MappingNode then
              (case flattenRecursive fuel h valueNode newPrefix result of
                 None \<Rightarrow> None
               | Some result1 \<Rightarrow> flattenPairs fuel h rest prefix result1)
            else flattenPairs fuel h rest prefix (map_put result newPrefix valueNode))
      else flattenPairs fuel h rest prefix result)"
| "flattenPairs fuel h [] prefix result = Some result"
| "flattenPairs fuel h [keyNode] prefix result = Some result"

text \<open>The loop of \<^verbatim>\<open>flatten\<close> over the map, in the order \<open>keys\<close> the runtime ranges in.\<close>

fun addFlatPairs :: "store \<Rightarrow> addr \<Rightarrow> (string \<times> addr) list \<Rightarrow> string list \<Rightarrow> store" where
  "addFlatPairs h newNode flatMap [] = h"
| "addFlatPairs h newNode flatMap (key # keys) =
     (case map_of flatMap key of
        None \<Rightarrow> addFlatPairs h newNode flatMap keys
      | Some valueNode \<Rightarrow>
          (case NewScalarNode_st h (VStr key) of
             (h1, keyNode) \<Rightarrow>
               addFlatPairs (fst (AddKeyValue h1 newNode (Some keyNode) (Some valueNode)))
                 newNode flatMap keys))"

text \<open>
  \<^verbatim>\<open>transform.operation(node)\<close> for a node that is not nil. None of the eight operations
  returns an error of its own; \<^verbatim>\<open>select\<close> passes on that of \<^verbatim>\<open>selectNode\<close>.
\<close>

fun operation ::
  "(string list \<Rightarrow> string list) \<Rightarrow> nat \<Rightarrow> Transform \<Rightarrow> store \<Rightarrow> addr
     \<Rightarrow> (store \<times> (error + addr option)) option"
where
  "operation rng fuel (Select predicate) h node = selectNode fuel h predicate (Some node)"
| "operation rng fuel (Map fn) h node = Some (fst (fn h node), Inr (snd (fn h node)))"
| "operation rng fuel (SetValue v) h node =
     Some (if Kind (h ! node) = ScalarNode then upd h node (\<lambda>x. x\<lparr>Value := v\<rparr>) else h,
           Inr (Some node))"
| "operation rng fuel (AddComment comment) h node =
     Some (upd h node (\<lambda>x. x\<lparr>HeadComment := HeadComment x @ [comment]\<rparr>), Inr (Some node))"
| "operation rng fuel (RemoveKey key) h node =
     Some (if Kind (h ! node) = MappingNode
           then upd h node (\<lambda>x. x\<lparr>Children := removeKeyChildren h key (Children x)\<rparr>) else h,
           Inr (Some node))"
| "operation rng fuel (RenameKey oldKey newKey) h node =
     Some (if Kind (h ! node) = MappingNode
           then (case renameTarget h oldKey (Children (h ! node)) of
                   None \<Rightarrow> h
                 | Some keyNode \<Rightarrow> upd h keyNode (\<lambda>x. x\<lparr>Value := VStr newKey\<rparr>))
           else h,
           Inr (Some node))"
| "operation rng fuel SortKeys h node =
     Some (if Kind (h ! node) = MappingNode
           then upd h node (\<lambda>x. x\<lparr>Children := sortKeysChildren h (Children x)\<rparr>) else h,
           Inr (Some node))"
| "operation rng fuel Flatten h node =
     (if Kind (h ! node) \<noteq> MappingNode then Some (h, Inr (Some node))
      else
        (case flattenRecursive fuel h node [] [] of
           None \<Rightarrow> None
         | Some flatMap \<Rightarrow>
             (case NewNode_st h MappingNode of
                (h1, newNode) \<Rightarrow>
                  Some (addFlatPairs h1 newNode flatMap (rng (map fst flatMap)),
                        Inr (Some newNode)))))"

subsection \<open>\<^verbatim>\<open>applyToNode\<close> and \<^verbatim>\<open>Apply\<close>\<close>

record TransformDSL =
  transforms :: "Transform list"
  errors :: "error list"

text \<open>A document and a tree whose nodes are in the store. \<^verbatim>\<open>Apply\<close> checks each document
  for nil, so an entry of \<^verbatim>\<open>Documents\<close> may be nil here.\<close>

record DocumentRef =
  RootRef :: "addr option"
  DirectivesRef :: "Directive list"
  VersionRef :: string
  AnchorsRef :: "string \<rightharpoonup> addr"

record NodeTreeRef =
  DocumentRefs :: "DocumentRef option list"
  CurrentRef :: "nat option"

fun errorText :: "error \<Rightarrow> string" where
  "errorText (Error msg) = msg"
| "errorText NilDereference = ''runtime error: invalid memory address or nil pointer dereference''"

text \<open>The predicate of the first operation named \<^verbatim>\<open>select\<close>, if the pipeline has one.\<close>

fun firstSelect :: "Transform list \<Rightarrow> (store \<Rightarrow> addr \<Rightarrow> bool) option" where
  "firstSelect [] = None"
| "firstSelect (Select predicate # ts) = Some predicate"
| "firstSelect (t # ts) = firstSelect ts"

text \<open>The loop that runs the operations in order on the clone.\<close>

fun runTransforms ::
  "(string list \<Rightarrow> string list) \<Rightarrow> nat \<Rightarrow> Transform list \<Rightarrow> store \<Rightarrow> addr
     \<Rightarrow> (store \<times> (error + addr option)) option"
where
  "runTransforms rng fuel [] h result = Some (h, Inr (Some result))"
| "runTransforms rng fuel (t # ts) h result =
     (case operation rng fuel t h result of
        None \<Rightarrow> None
      | Some (h1, Inl err) \<Rightarrow>
          Some (h1, Inl (Error (''transform '' @ [CHR 0x27] @ transformName t @ [CHR 0x27]
                                 @ '' failed: '' @ errorText err)))
      | Some (h1, Inr None) \<Rightarrow> Some (h1, Inr None)
      | Some (h1, Inr (Some result1)) \<Rightarrow> runTransforms rng fuel ts h1 result1)"

definition hasChildrenKind :: "NodeKind \<Rightarrow> bool" where
  "hasChildrenKind k = (k = MappingNode \<or> k = SequenceNode \<or> k = DocumentNode)"

fun applyToNode ::
    "(string list \<Rightarrow> string list) \<Rightarrow> nat \<Rightarrow> Transform list \<Rightarrow> store \<Rightarrow> addr option
       \<Rightarrow> (store \<times> (error + addr option)) option"
  and applyChildren ::
    "(string list \<Rightarrow> string list) \<Rightarrow> nat \<Rightarrow> Transform list \<Rightarrow> store \<Rightarrow> addr list \<Rightarrow> addr list
       \<Rightarrow> (store \<times> (error + addr list)) option"
where
  "applyToNode rng 0 ts h node = None"
| "applyToNode rng (Suc fuel) ts h None = Some (h, Inr None)"
| "applyToNode rng (Suc fuel) ts h (Some node) =
     (case firstSelect ts of
        Some predicate \<Rightarrow> operation rng fuel (Select predicate) h node
      | None \<Rightarrow>
          (case cloneNode fuel h node of
             None \<Rightarrow> None
           | Some (h1, result) \<Rightarrow>
               (case runTransforms rng fuel ts h1 result of
                  None \<Rightarrow> None
                | Some (h2, Inl err) \<Rightarrow> Some (h2, Inl err)
                | Some (h2, Inr None) \<Rightarrow> Some (h2, Inr None)
                | Some (h2, Inr (Some result2)) \<Rightarrow>
                    (if hasChildrenKind (Kind (h2 ! result2)) then
                       (case applyChildren rng fuel ts h2 (Children (h2 ! result2)) [] of
                          None \<Rightarrow> None
                        | Some (h3, Inl err) \<Rightarrow> Some (h3, Inl err)
                        | Some (h3, Inr newChildren) \<Rightarrow>
                            Some (upd h3 result2 (\<lambda>x. x\<lparr>Children := newChildren\<rparr>),
                                  Inr (Some result2)))
                     else Some (h2, Inr (Some result2))))))"
| "applyChildren rng fuel ts h [] newChildren = Some (h, Inr newChildren)"
| "applyChildren rng fuel ts h (child # rest) newChildren =
     (case applyToNode rng fuel ts h (Some child) of
        None \<Rightarrow> None
      | Some (h1, Inl err) \<Rightarrow> Some (h1, Inl err)
      | Some (h1, Inr None) \<Rightarrow> applyChildren rng fuel ts h1 rest newChildren
      | Some (h1, Inr (Some transformedChild)) \<Rightarrow>
          applyChildren rng fuel ts h1 rest (newChildren @ [transformedChild]))"

fun applyDocuments ::
  "(string list \<Rightarrow> string list) \<Rightarrow> nat \<Rightarrow> Transform list \<Rightarrow> store \<Rightarrow> DocumentRef option list
     \<Rightarrow> NodeTreeRef \<Rightarrow> (store \<times> (error + NodeTreeRef)) option"
where
  "applyDocuments rng fuel ts h [] resultTree = Some (h, Inr resultTree)"
| "applyDocuments rng fuel ts h (None # rest) resultTree =
     Some (h, Inl (Error ''tree contains nil document''))"
| "applyDocuments rng fuel ts h (Some doc # rest) resultTree =
     (case (case RootRef doc of
              None \<Rightarrow> Some (h, Inr None)
            | Some root \<Rightarrow> applyToNode rng fuel ts h (Some root)) of
        None \<Rightarrow> None
      | Some (h1, Inl err) \<Rightarrow> Some (h1, Inl err)
      | Some (h1, Inr transformedRoot) \<Rightarrow>
          applyDocuments rng fuel ts h1 rest
            \<lparr>DocumentRefs = DocumentRefs resultTree
                @ [Some \<lparr>RootRef = transformedRoot, DirectivesRef = DirectivesRef doc,
                         VersionRef = VersionRef doc, AnchorsRef = Map.empty\<rparr>],
             CurrentRef = Some (length (DocumentRefs resultTree))\<rparr>)"

definition Apply ::
  "(string list \<Rightarrow> string list) \<Rightarrow> nat \<Rightarrow> TransformDSL \<Rightarrow> store \<Rightarrow> NodeTreeRef option
     \<Rightarrow> (store \<times> (error + NodeTreeRef)) option"
where
  "Apply rng fuel dsl h tree =
     (case tree of
        None \<Rightarrow> Some (h, Inl (Error ''tree is nil''))
      | Some t \<Rightarrow>
          if errors dsl \<noteq> [] then
            Some (h, Inl (Error (''DSL has '' @ show_nat (length (errors dsl)) @ '' errors'')))
          else if DocumentRefs t = [] then Some (h, Inr t)
          else applyDocuments rng fuel (transforms dsl) h (DocumentRefs t)
                 \<lparr>DocumentRefs = [], CurrentRef = None\<rparr>)"

section \<open>Claims on the transform pipeline\<close>

subsection \<open>Stores built through the constructors\<close>

text \<open>A mapping \<open>{a: 1}\<close> built with \<^verbatim>\<open>NewMappingNode\<close>, \<^verbatim>\<open>NewScalarNode\<close> and \<^verbatim>\<open>AddChild\<close>: the
  mapping is at address 0, the key at 1, the value at 2, and \<^verbatim>\<open>AddChild\<close> leaves the
  \<^verbatim>\<open>Key\<close> of the value nil.\<close>

definition built_mapping :: store where
  "built_mapping =
     (case NewNode_st [] MappingNode of (h1, m) \<Rightarrow>
      case NewScalarNode_st h1 (VStr ''a'') of (h2, k) \<Rightarrow>
      case NewScalarNode_st h2 (VInt 1) of (h3, v) \<Rightarrow>
        AddChild (AddChild h3 m (Some k)) m (Some v))"

definition built_tree :: NodeTreeRef where
  "built_tree = \<lparr>DocumentRefs = [Some \<lparr>RootRef = Some 0, DirectivesRef = [], VersionRef = [],
      AnchorsRef = Map.empty\<rparr>], CurrentRef = Some 0\<rparr>"

definition keep_all :: "store \<Rightarrow> addr \<Rightarrow> bool" where
  "keep_all h a = True"

text \<open>A mapping \<open>{b: 1, a: 2}\<close> built with \<^verbatim>\<open>AddKeyValue\<close>: the mapping is at address 0, the
  pairs at (1, 2) and (3, 4). The predicate \<open>is_two\<close> holds of a node whose value is the
  integer 2.\<close>

definition two_keys :: store where
  "two_keys =
     (case NewNode_st [] MappingNode of (h0, m) \<Rightarrow>
      case NewScalarNode_st h0 (VStr ''b'') of (h1, k1) \<Rightarrow>
      case NewScalarNode_st h1 (VInt 1) of (h2, v1) \<Rightarrow>
      case NewScalarNode_st h2 (VStr ''a'') of (h3, k2) \<Rightarrow>
      case NewScalarNode_st h3 (VInt 2) of (h4, v2) \<Rightarrow>
        fst (AddKeyValue (fst (AddKeyValue h4 m (Some k1) (Some v1))) m (Some k2) (Some v2)))"

definition is_two :: "store \<Rightarrow> addr \<Rightarrow> bool" where
  "is_two h a = (Value (h ! a) = VInt 2)"

text \<open>
  What claim C8 says \<^verbatim>\<open>Apply\<close> does when the pipeline holds a select: on every document, in
  order, one call of \<^verbatim>\<open>selectNode\<close> on the root with the predicate of the select, whose
  result is the root of the new document; nothing else runs. A nil document and an error
  of \<^verbatim>\<open>selectNode\<close> end the loop as they do in \<^verbatim>\<open>Apply\<close>.
\<close>

fun selectDocuments ::
  "nat \<Rightarrow> (store \<Rightarrow> addr \<Rightarrow> bool) \<Rightarrow> store \<Rightarrow> DocumentRef option list \<Rightarrow> NodeTreeRef
     \<Rightarrow> (store \<times> (error + NodeTreeRef)) option"
where
  "selectDocuments fuel predicate h [] resultTree = Some (h, Inr resultTree)"
| "selectDocuments fuel predicate h (None # rest) resultTree =
     Some (h, Inl (Error ''tree contains nil document''))"
| "selectDocuments fuel predicate h (Some doc # rest) resultTree =
     (case (case RootRef doc of
              None \<Rightarrow> Some (h, Inr None)
            | Some root \<Rightarrow> selectNode fuel h predicate (Some root)) of
        None \<Rightarrow> None
      | Some (h1, Inl err) \<Rightarrow> Some (h1, Inl err)
      | Some (h1, Inr selected) \<Rightarrow>
          selectDocuments fuel predicate h1 rest
            \<lparr>DocumentRefs = DocumentRefs resultTree
                @ [Some \<lparr>RootRef = selected, DirectivesRef = DirectivesRef doc,
                         VersionRef = VersionRef doc, AnchorsRef = Map.empty\<rparr>],
             CurrentRef = Some (length (DocumentRefs resultTree))\<rparr>)"


subsection \<open>Sorting the keys\<close>


lemma sortPass_mset:
  "mset (fst (sortPass kf x ys) # snd (sortPass kf x ys)) = mset (x # ys)"
  by (induction ys arbitrary: x) (simp_all add: case_prod_beta)

lemma sortPairs_mset: "mset (sortPairs kf xs) = mset xs"
proof (induction kf xs rule: sortPairs.induct)
  case (1 kf) then show ?case by simp
next
  case (2 kf x xs)
  have "mset (sortPairs kf (x # xs)) =
      mset (fst (sortPass kf x xs) # snd (sortPass kf x xs))"
    using 2 by simp
  then show ?case by (simp only: sortPass_mset)
qed


lemma length_sortPairs: "length (sortPairs kf xs) = length xs"
  using sortPairs_mset[of kf xs] by (metis size_mset)





subsection \<open>A pipeline with a select\<close>

lemma firstSelect_mem: "Select q \<in> set ts \<Longrightarrow> \<exists>p. firstSelect ts = Some p"
  by (induction ts rule: firstSelect.induct) auto

lemma firstSelect_in: "firstSelect ts = Some p \<Longrightarrow> Select p \<in> set ts"
  by (induction ts rule: firstSelect.induct) auto

lemma applyToNode_select:
  assumes "firstSelect ts = Some p"
  shows "applyToNode rng fuel ts h node = applyToNode rng fuel [Select p] h node"
proof (cases fuel)
  case 0 then show ?thesis by simp
next
  case (Suc f)
  then show ?thesis using assms by (cases node) simp_all
qed

lemma applyDocuments_select:
  assumes "firstSelect ts = Some p"
  shows "applyDocuments rng fuel ts h docs acc = applyDocuments rng fuel [Select p] h docs acc"
proof (induction docs arbitrary: h acc)
  case Nil then show ?case by simp
next
  case (Cons d docs)
  show ?case
  proof (cases d)
    case None then show ?thesis by simp
  next
    case (Some doc)
    show ?thesis
      by (simp add: Some applyToNode_select[OF assms] Cons.IH
          split: option.splits prod.splits sum.splits)
  qed
qed

lemma applyDocuments_selectDocuments:
  assumes "firstSelect ts = Some p"
  shows "applyDocuments rng (Suc fuel) ts h docs acc = selectDocuments fuel p h docs acc"
proof (induction docs arbitrary: h acc)
  case Nil then show ?case by simp
next
  case (Cons d docs)
  show ?case
  proof (cases d)
    case None then show ?thesis by simp
  next
    case (Some doc)
    show ?thesis
      by (simp add: Some assms Cons.IH split: option.splits prod.splits sum.splits)
  qed
qed

lemma two_keys_store:
  "two_keys =
     [(newHNode MappingNode)\<lparr>Children := [1, 2, 3, 4]\<rparr>,
      (newHNode ScalarNode)\<lparr>Value := VStr ''b'', Parent := Some 0\<rparr>,
      (newHNode ScalarNode)\<lparr>Value := VInt 1, Parent := Some 0, Key := Some 1\<rparr>,
      (newHNode ScalarNode)\<lparr>Value := VStr ''a'', Parent := Some 0\<rparr>,
      (newHNode ScalarNode)\<lparr>Value := VInt 2, Parent := Some 0, Key := Some 3\<rparr>]"
  by (simp add: two_keys_def NewNode_st_def NewScalarNode_st_def AddKeyValue_def upd_def
      newHNode_def)

text \<open>
  Claim C8. If the pipeline holds a select operation, at any position, then

  \<^item> \<^verbatim>\<open>Apply\<close> returns, in the same store, what it returns for the pipeline that holds only
    the first select of the list: no other queued operation has an effect;
  \<^item> on a node that is not nil \<^verbatim>\<open>applyToNode\<close> is one call of \<^verbatim>\<open>selectNode\<close> with the
    predicate of that select, which does its own recursion;
  \<^item> the output of \<^verbatim>\<open>Apply\<close> is the output of the select: after the checks for a nil tree,
    for recorded errors and for a tree without documents, \<^verbatim>\<open>Apply\<close> is \<open>selectDocuments\<close>,
    which calls \<^verbatim>\<open>selectNode\<close> once on the root of each document and makes its result
    the root of the new document.
\<close>

theorem select_governs_pipeline:
  assumes "Select q \<in> set (transforms dsl)"
  shows "\<exists>p. firstSelect (transforms dsl) = Some p
           \<and> Select p \<in> set (transforms dsl)
           \<and> Apply rng fuel dsl h tree = Apply rng fuel (dsl\<lparr>transforms := [Select p]\<rparr>) h tree
           \<and> applyToNode rng (Suc fuel) (transforms dsl) h (Some node)
               = selectNode fuel h p (Some node)
           \<and> Apply rng (Suc fuel) dsl h tree =
               (case tree of
                  None \<Rightarrow> Some (h, Inl (Error ''tree is nil''))
                | Some t \<Rightarrow>
                    if errors dsl \<noteq> [] then
                      Some (h, Inl (Error (''DSL has '' @ show_nat (length (errors dsl))
                                             @ '' errors'')))
                    else if DocumentRefs t = [] then Some (h, Inr t)
                    else selectDocuments fuel p h (DocumentRefs t)
                           \<lparr>DocumentRefs = [], CurrentRef = None\<rparr>)"
proof -
  from firstSelect_mem[OF assms] obtain p where p: "firstSelect (transforms dsl) = Some p"
    by blast
  have "Apply rng fuel dsl h tree = Apply rng fuel (dsl\<lparr>transforms := [Select p]\<rparr>) h tree"
    by (simp add: Apply_def applyDocuments_select[OF p] split: option.splits)
  moreover have "applyToNode rng (Suc fuel) (transforms dsl) h (Some node)
               = selectNode fuel h p (Some node)"
    using p by simp
  moreover have "Apply rng (Suc fuel) dsl h tree =
               (case tree of
                  None \<Rightarrow> Some (h, Inl (Error ''tree is nil''))
                | Some t \<Rightarrow>
                    if errors dsl \<noteq> [] then
                      Some (h, Inl (Error (''DSL has '' @ show_nat (length (errors dsl))
                                             @ '' errors'')))
                    else if DocumentRefs t = [] then Some (h, Inr t)
                    else selectDocuments fuel p h (DocumentRefs t)
                           \<lparr>DocumentRefs = [], CurrentRef = None\<rparr>)"
    by (simp add: Apply_def applyDocuments_selectDocuments[OF p] split: option.splits)
  ultimately show ?thesis using p firstSelect_in[OF p] by blast
qed

text \<open>
  The theorem at the mapping \<open>{b: 1, a: 2}\<close> and the pipeline \<^verbatim>\<open>sortKeys\<close>, \<^verbatim>\<open>select\<close> of the
  nodes of value 2, \<^verbatim>\<open>removeKey("a")\<close>. \<^verbatim>\<open>Apply\<close> returns no error and one document whose root
  is the node allocated at address 5, a Mapping with the one pair \<open>a: 2\<close> (the nodes at 3
  and 4): the select has dropped the pair \<open>b: 1\<close>, the key \<open>a\<close> has not been removed, and
  the mapping of the input still lists \<open>b\<close> before \<open>a\<close>.
\<close>

theorem select_governs_pipeline_witness:
  "Select is_two \<in> set [SortKeys, Select is_two, RemoveKey ''a'']
   \<and> (case Apply id 6 \<lparr>transforms = [SortKeys, Select is_two, RemoveKey ''a''], errors = []\<rparr>
              two_keys (Some built_tree) of
         None \<Rightarrow> False
       | Some (h', Inl err) \<Rightarrow> False
       | Some (h', Inr t) \<Rightarrow>
           map (map_option RootRef) (DocumentRefs t) = [Some (Some 5)]
           \<and> Kind (h' ! 5) = MappingNode \<and> Children (h' ! 5) = [3, 4]
           \<and> Value (h' ! 3) = VStr ''a'' \<and> Value (h' ! 4) = VInt 2
           \<and> Children (h' ! 0) = [1, 2, 3, 4])
   \<and> Apply id 6 \<lparr>transforms = [SortKeys, Select is_two, RemoveKey ''a''], errors = []\<rparr>
        two_keys (Some built_tree)
      = Apply id 6 \<lparr>transforms = [Select is_two], errors = []\<rparr> two_keys (Some built_tree)"
proof -
  have e: "6 = Suc 5" by simp
  from select_governs_pipeline[of is_two
      "\<lparr>transforms = [SortKeys, Select is_two, RemoveKey ''a''], errors = []\<rparr>"
      id 5 two_keys "Some built_tree" 0]
  have a: "Apply id (Suc 5) \<lparr>transforms = [SortKeys, Select is_two, RemoveKey ''a''], errors = []\<rparr>
        two_keys (Some built_tree)
      = selectDocuments 5 is_two two_keys (DocumentRefs built_tree)
          \<lparr>DocumentRefs = [], CurrentRef = None\<rparr>"
    by (simp add: built_tree_def)
  from select_governs_pipeline[of is_two
      "\<lparr>transforms = [SortKeys, Select is_two, RemoveKey ''a''], errors = []\<rparr>"
      id 6 two_keys "Some built_tree" 0]
  have b: "Apply id 6 \<lparr>transforms = [SortKeys, Select is_two, RemoveKey ''a''], errors = []\<rparr>
        two_keys (Some built_tree)
      = Apply id 6 \<lparr>transforms = [Select is_two], errors = []\<rparr> two_keys (Some built_tree)"
    by simp
  have c: "(case selectDocuments 5 is_two two_keys (DocumentRefs built_tree)
                 \<lparr>DocumentRefs = [], CurrentRef = None\<rparr> of
         None \<Rightarrow> False
       | Some (h', Inl err) \<Rightarrow> False
       | Some (h', Inr t) \<Rightarrow>
           map (map_option RootRef) (DocumentRefs t) = [Some (Some 5)]
           \<and> Kind (h' ! 5) = MappingNode \<and> Children (h' ! 5) = [3, 4]
           \<and> Value (h' ! 3) = VStr ''a'' \<and> Value (h' ! 4) = VInt 2
           \<and> Children (h' ! 0) = [1, 2, 3, 4])"
    by (simp add: two_keys_store built_tree_def upd_def newHNode_def is_two_def
        eval_nat_numeral cloneNode_def cloneFields_def)
  show ?thesis
    unfolding e a using c b[unfolded e a] by simp
qed


subsection \<open>What a select does to the tree it is given\<close>

text \<open>
  Claim C6 says that \<^verbatim>\<open>Apply\<close> leaves every node of the tree it is given unchanged, also
  with a select in the pipeline. The code does not: \<^verbatim>\<open>selectNode\<close> stores the key in
  \<^verbatim>\<open>valueNode.Key\<close> of the node of the input. For the mapping \<open>{a: 1}\<close> built with
  \<^verbatim>\<open>AddChild\<close> the value node (address 2) has a nil \<^verbatim>\<open>Key\<close> before \<^verbatim>\<open>Apply\<close> and the key
  node (address 1) as its \<^verbatim>\<open>Key\<close> after it; \<^verbatim>\<open>Apply\<close> returns without error.
\<close>

theorem apply_select_writes_input:
  "Key (built_mapping ! 2) = None
   \<and> (case Apply id 5 \<lparr>transforms = [Select keep_all], errors = []\<rparr> built_mapping
              (Some built_tree) of
         None \<Rightarrow> False
       | Some (h', Inl err) \<Rightarrow> False
       | Some (h', Inr t) \<Rightarrow> Key (h' ! 2) = Some 1 \<and> h' ! 2 \<noteq> built_mapping ! 2)"
  by (simp add: Apply_def built_tree_def built_mapping_def NewNode_st_def NewScalarNode_st_def
      AddChild_def upd_def newHNode_def keep_all_def eval_nat_numeral cloneNode_def
      cloneFields_def)

section \<open>Cloning in the store\<close>

text \<open>
  The pointers a node holds, and a store in which every pointer is the address of a node.
\<close>

definition ptrs :: "hnode \<Rightarrow> addr set" where
  "ptrs n = set (Children n) \<union> set_option (Key n) \<union> set_option (Parent n) \<union> set_option (Alias n)"



definition same_but_parent :: "hnode \<Rightarrow> hnode \<Rightarrow> bool" where
  "same_but_parent x y = (x\<lparr>Parent := None\<rparr> = y\<lparr>Parent := None\<rparr>)"

definition step_ok :: "nat \<Rightarrow> store \<Rightarrow> store \<Rightarrow> bool" where
  "step_ok N0 h h' =
     (length h \<le> length h' \<and> (\<forall>a<length h. same_but_parent (h' ! a) (h ! a))
      \<and> (\<forall>a<N0. h' ! a = h ! a))"






text \<open>The nodes that \<^verbatim>\<open>cloneWithSeen\<close> follows from \<open>n\<close>: through \<^verbatim>\<open>Children\<close> and
  \<^verbatim>\<open>Key\<close>.\<close>

inductive_set reach :: "store \<Rightarrow> addr \<Rightarrow> addr set" for h :: store and n :: addr where
  start: "n \<in> reach h n"
| child: "a \<in> reach h n \<Longrightarrow> b \<in> set (Children (h ! a)) \<Longrightarrow> b \<in> reach h n"
| key: "a \<in> reach h n \<Longrightarrow> Key (h ! a) = Some b \<Longrightarrow> b \<in> reach h n"



lemma same_but_parent_refl [simp]: "same_but_parent x x"
  by (simp add: same_but_parent_def)


lemma same_but_parent_upd [simp]: "same_but_parent (x\<lparr>Parent := p\<rparr>) y = same_but_parent x y"
  by (simp add: same_but_parent_def)

lemma same_but_parent_iff: "same_but_parent x y \<longleftrightarrow> x = y\<lparr>Parent := Parent x\<rparr>"
  by (cases x; cases y) (auto simp: same_but_parent_def)

lemma same_but_parent_sym: "same_but_parent x y \<Longrightarrow> same_but_parent y x"
  by (simp add: same_but_parent_def)


lemma same_but_parent_Children:
  "same_but_parent x y \<Longrightarrow> same_but_parent (x\<lparr>Children := cs\<rparr>) (y\<lparr>Children := cs\<rparr>)"
  by (cases x; cases y) (simp add: same_but_parent_def)

lemma same_but_parent_Children_absorb:
  "same_but_parent x (y\<lparr>Children := Children x\<rparr>) \<Longrightarrow> same_but_parent y z
     \<Longrightarrow> same_but_parent x (z\<lparr>Children := Children x\<rparr>)"
  by (cases x; cases y; cases z) (simp add: same_but_parent_def)

lemma upd_length [simp]: "length (upd h a f) = length h"
  by (simp add: upd_def)

lemma upd_nth: "upd h a f ! b = (if a = b \<and> a < length h then f (h ! a) else h ! b)"
  by (cases "a < length h") (auto simp: upd_def nth_list_update list_update_beyond)

lemma ptrs_Parent [simp]: "ptrs (x\<lparr>Parent := Some p\<rparr>) \<subseteq> S \<longleftrightarrow> (ptrs (x\<lparr>Parent := None\<rparr>) \<subseteq> S \<and> p \<in> S)"
  by (auto simp: ptrs_def)

lemma step_ok_refl [simp]: "step_ok N0 h h"
  by (simp add: step_ok_def)












subsection \<open>The clone has the content of the node\<close>
























section \<open>Mapping nodes hold their children in pairs\<close>

text \<open>
  A Mapping node lists its children as key, value, key, value: the key of pair \<open>i\<close> is at
  position \<open>2 * i\<close> and its value at \<open>2 * i + 1\<close>, which is how every loop of the code reads
  them (\<^verbatim>\<open>for i := 0; i < len(n.Children)-1; i += 2\<close>). The invariant is that the list has
  even length. It is stated for every node of a store (\<open>pairedStore\<close>), for every node of an
  ownership tree (\<open>pairedTree\<close>), and for a node that may be nil (\<open>pairedOpt\<close>).
\<close>

definition pairedNode :: "hnode \<Rightarrow> bool" where
  "pairedNode x = (Kind x = MappingNode \<longrightarrow> even (length (Children x)))"

definition pairedStore :: "store \<Rightarrow> bool" where
  "pairedStore h = list_all pairedNode h"

fun pairedTree :: "node \<Rightarrow> bool" where
  "pairedTree (Node i cs) =
     ((Kind i = MappingNode \<longrightarrow> even (length cs)) \<and> list_all pairedTree cs)"

definition pairedOpt :: "node option \<Rightarrow> bool" where
  "pairedOpt n = (case n of None \<Rightarrow> True | Some x \<Rightarrow> pairedTree x)"

text \<open>
  The store of the test \<^verbatim>\<open>RemoveFromMapping\<close>: a Mapping at address 0 with the pair
  \<^verbatim>\<open>key: value\<close> at addresses 1 and 2, added by \<^verbatim>\<open>AddKeyValue\<close>, and one more Scalar at
  address 3 that has no parent. Then a Mapping of the reader with three children, and a
  \<^verbatim>\<open>ParseFloat\<close> that accepts nothing.
\<close>

definition one_pair :: store where
  "one_pair =
     (case NewNode_st [] MappingNode of (h0, parent) \<Rightarrow>
      case NewScalarNode_st h0 (VStr ''key'') of (h1, key) \<Rightarrow>
      case NewScalarNode_st h1 (VStr ''value'') of (h2, valueNode) \<Rightarrow>
      case NewScalarNode_st h2 (VStr ''other'') of (h3, other) \<Rightarrow>
        fst (AddKeyValue h3 parent (Some key) (Some valueNode)))"

definition yscalar :: "string \<Rightarrow> ynode" where
  "yscalar v = YNode \<lparr>YKindOf = YScalarNode, YStyle = 0, YTag = ''!!str'', YValue = v,
     YAnchor = [], YHeadComment = [], YLineComment = [], YFootComment = [],
     YLine = 1, YColumn = 1\<rparr> []"

definition ymapping :: "ynode list \<Rightarrow> ynode" where
  "ymapping cs = YNode \<lparr>YKindOf = YMappingNode, YStyle = 0, YTag = ''!!map'', YValue = [],
     YAnchor = [], YHeadComment = [], YLineComment = [], YFootComment = [],
     YLine = 1, YColumn = 1\<rparr> cs"

definition no_floats :: externals where
  "no_floats = \<lparr>yaml_Unmarshal = (\<lambda>s. Inl ''yaml: no reader''), ParseFloat = (\<lambda>s. (''0'', False))\<rparr>"

subsection \<open>The operations on a store\<close>

lemma pairedStore_upd:
  assumes "pairedStore h" "a < length h \<Longrightarrow> pairedNode (f (h ! a))"
  shows "pairedStore (upd h a f)"
  using assms by (auto simp: pairedStore_def list_all_length upd_nth)

lemma pairedStore_alloc:
  "pairedStore h \<Longrightarrow> pairedNode x \<Longrightarrow> pairedStore (h @ [x])"
  by (simp add: pairedStore_def)

lemma pairedStoreD: "pairedStore h \<Longrightarrow> a < length h \<Longrightarrow> pairedNode (h ! a)"
  by (simp add: pairedStore_def list_all_length)

lemma pairedNode_simps [simp]:
  "pairedNode (x\<lparr>Parent := p\<rparr>) = pairedNode x"
  "pairedNode (x\<lparr>Key := k\<rparr>) = pairedNode x"
  "pairedNode (x\<lparr>Value := v\<rparr>) = pairedNode x"
  by (simp_all add: pairedNode_def)

lemma AddKeyValue_paired:
  assumes "pairedStore h"
  shows "pairedStore (fst (AddKeyValue h n key valueNode))"
proof (cases "Kind (h ! n) \<noteq> MappingNode")
  case True then show ?thesis using assms by (simp add: AddKeyValue_def)
next
  case False
  show ?thesis
  proof (cases key)
    case None then show ?thesis using assms False by (simp add: AddKeyValue_def)
  next
    case (Some k)
    have p1: "pairedStore (upd h k (\<lambda>x. x\<lparr>Parent := Some n\<rparr>))"
      by (rule pairedStore_upd[OF assms]) (simp add: pairedStoreD[OF assms])
    show ?thesis
    proof (cases valueNode)
      case None then show ?thesis using False Some p1 by (simp add: AddKeyValue_def)
    next
      case (Some v)
      let ?h1 = "upd h k (\<lambda>x. x\<lparr>Parent := Some n\<rparr>)"
      let ?h2 = "upd ?h1 v (\<lambda>x. x\<lparr>Parent := Some n\<rparr>)"
      let ?h3 = "upd ?h2 v (\<lambda>x. x\<lparr>Key := Some k\<rparr>)"
      have p2: "pairedStore ?h2"
        by (rule pairedStore_upd[OF p1]) (simp add: pairedStoreD[OF p1])
      have p3: "pairedStore ?h3"
        by (rule pairedStore_upd[OF p2]) (simp add: pairedStoreD[OF p2])
      have "pairedStore (upd ?h3 n (\<lambda>x. x\<lparr>Children := Children x @ [k, v]\<rparr>))"
        by (rule pairedStore_upd[OF p3])
           (use pairedStoreD[OF p3, of n] in \<open>simp add: pairedNode_def\<close>)
      then show ?thesis using False \<open>key = Some k\<close> Some by (simp add: AddKeyValue_def Let_def)
    qed
  qed
qed

lemma ReplaceWith_paired:
  assumes "pairedStore h"
  shows "pairedStore (fst (ReplaceWith h n replacement))"
proof (cases "Parent (h ! n)")
  case None then show ?thesis using assms by (simp add: ReplaceWith_def)
next
  case (Some p)
  show ?thesis
  proof (cases "indexOf n (Children (h ! p))")
    case None then show ?thesis using assms Some by (simp add: ReplaceWith_def)
  next
    case (Some i)
    let ?h1 = "upd h p (\<lambda>x. x\<lparr>Children := (Children x)[i := replacement]\<rparr>)"
    let ?h2 = "upd ?h1 replacement (\<lambda>x. x\<lparr>Parent := Parent (?h1 ! n)\<rparr>)"
    let ?h3 = "upd ?h2 replacement (\<lambda>x. x\<lparr>Key := Key (?h2 ! n)\<rparr>)"
    have p1: "pairedStore ?h1"
      by (rule pairedStore_upd[OF assms])
         (use pairedStoreD[OF assms, of p] in \<open>simp add: pairedNode_def\<close>)
    have p2: "pairedStore ?h2"
      by (rule pairedStore_upd[OF p1]) (simp add: pairedStoreD[OF p1])
    have p3: "pairedStore ?h3"
      by (rule pairedStore_upd[OF p2]) (simp add: pairedStoreD[OF p2])
    have "pairedStore (upd ?h3 n (\<lambda>x. x\<lparr>Parent := None\<rparr>))"
      by (rule pairedStore_upd[OF p3]) (simp add: pairedStoreD[OF p3])
    then show ?thesis using \<open>Parent (h ! n) = Some p\<close> Some by (simp add: ReplaceWith_def Let_def)
  qed
qed

lemma even_removeKeyChildren: "even (length (removeKeyChildren h key cs))"
  by (induction h key cs rule: removeKeyChildren.induct) auto

lemma even_sortKeysChildren: "even (length (sortKeysChildren h cs))"
  by (simp add: sortKeysChildren_def length_unpairs)

lemma addFlatPairs_paired:
  "pairedStore h \<Longrightarrow> pairedStore (addFlatPairs h newNode flatMap keys)"
proof (induction keys arbitrary: h)
  case Nil then show ?case by simp
next
  case (Cons key keys)
  show ?case
  proof (cases "map_of flatMap key")
    case None then show ?thesis using Cons by simp
  next
    case (Some valueNode)
    have "pairedStore (h @ [(newHNode ScalarNode)\<lparr>Value := VStr key\<rparr>])"
      by (rule pairedStore_alloc[OF Cons.prems]) (simp add: pairedNode_def newHNode_def)
    from AddKeyValue_paired[OF this] Cons.IH show ?thesis
      by (simp add: Some NewScalarNode_st_def)
  qed
qed

lemma operation_paired:
  assumes "pairedStore h"
    and "t = RemoveKey k \<or> t = RenameKey a b \<or> t = SortKeys \<or> t = Flatten"
    and "operation rng fuel t h n = Some (h', r)"
  shows "pairedStore h'"
proof -
  consider "t = RemoveKey k" | "t = RenameKey a b" | "t = SortKeys" | "t = Flatten"
    using assms(2) by blast
  then show ?thesis
  proof cases
    case 1
    have "pairedStore (upd h n (\<lambda>x. x\<lparr>Children := removeKeyChildren h k (Children x)\<rparr>))"
      by (rule pairedStore_upd[OF assms(1)]) (simp add: pairedNode_def even_removeKeyChildren)
    with assms(1,3) 1 show ?thesis by (auto split: if_splits)
  next
    case 2
    have "pairedStore (upd h kn (\<lambda>x. x\<lparr>Value := VStr b\<rparr>))" for kn
      by (rule pairedStore_upd[OF assms(1)]) (simp add: pairedStoreD[OF assms(1)])
    with assms(1,3) 2 show ?thesis by (auto split: if_splits option.splits)
  next
    case 3
    have "pairedStore (upd h n (\<lambda>x. x\<lparr>Children := sortKeysChildren h (Children x)\<rparr>))"
      by (rule pairedStore_upd[OF assms(1)]) (simp add: pairedNode_def even_sortKeysChildren)
    with assms(1,3) 3 show ?thesis by (auto split: if_splits)
  next
    case 4
    have "pairedStore (h @ [newHNode MappingNode])"
      by (rule pairedStore_alloc[OF assms(1)]) (simp add: pairedNode_def newHNode_def)
    from addFlatPairs_paired[OF this] assms(1,3) 4 show ?thesis
      by (auto simp: NewNode_st_def split: if_splits option.splits)
  qed
qed


subsection \<open>Merging and the conversion from the reader's nodes\<close>

lemma pairedTree_Clone [simp]: "pairedTree (Clone x) = pairedTree x"
  by (simp add: Clone_id)

lemma pairedTree_alt:
  "pairedTree x = ((Kind (info x) = MappingNode \<longrightarrow> even (length (children x)))
                   \<and> list_all pairedTree (children x))"
  by (cases x) simp

lemma pairedTree_overlayKeyComments [simp]:
  "pairedTree (overlayKeyComments k ok) = pairedTree k"
  by (simp add: pairedTree_alt[of "overlayKeyComments k ok"] pairedTree_alt[of k]
      overlayKeyComments_def)

lemma pairedTree_baseCommentFallback [simp]:
  "pairedTree (baseCommentFallback r b) = pairedTree r"
  by (simp add: pairedTree_alt[of "baseCommentFallback r b"] pairedTree_alt[of r]
      baseCommentFallback_def)

lemma list_all_update:
  "list_all P xs \<Longrightarrow> (i < length xs \<Longrightarrow> P x) \<Longrightarrow> list_all P (xs[i := x])"
  by (cases "i < length xs") (auto simp: list_all_length nth_list_update)

lemma map_Clone_id [simp]: "map Clone xs = xs"
  by (induction xs) (simp_all add: Clone_id)

lemma merge_paired:
  shows "pairedTree base \<Longrightarrow> pairedTree overlay \<Longrightarrow> pairedTree (mergeNonNil base overlay)"
    and "list_all pairedTree rc \<Longrightarrow> even (length rc) \<Longrightarrow> list_all pairedTree os \<Longrightarrow>
           list_all pairedTree (mergeOverlay bk rc os) \<and> even (length (mergeOverlay bk rc os))"
proof (induction base overlay and bk rc os rule: mergeNonNil_mergeOverlay.induct)
  case (1 base overlay)
  show ?case
  proof (cases "Kind (info base) = MappingNode \<and> Kind (info overlay) = MappingNode")
    case True
    from "1.prems" True have pre: "list_all pairedTree (children (Clone base))"
      "even (length (children (Clone base)))" "list_all pairedTree (children overlay)"
      by (simp_all add: Clone_id pairedTree_alt[of base] pairedTree_alt[of overlay])
    from "1.IH"[OF True pre] True show ?thesis
      by (simp add: mergeNonNil.simps Clone_id)
  next
    case False
    then show ?thesis using "1.prems"
      by (auto simp: mergeNonNil.simps Clone_id pairedTree_alt[of base]
          pairedTree_alt[of overlay])
  qed
next
  case (2 bk rc overlayKey overlayValue rest)
  from "2.prems"(3) have ok: "pairedTree overlayKey" and ov: "pairedTree overlayValue"
    and rest: "list_all pairedTree rest"
    by simp_all
  show ?case
  proof (cases "Kind (info overlayKey) = ScalarNode")
    case False
    with "2.IH"(5)[OF False "2.prems"(1,2) rest] show ?thesis by simp
  next
    case True
    show ?thesis
    proof (cases "bk (sprint (Value (info overlayKey)))")
      case None
      have "list_all pairedTree (rc @ [Clone overlayKey, Clone overlayValue])"
        "even (length (rc @ [Clone overlayKey, Clone overlayValue]))"
        using "2.prems"(1,2) ok ov by simp_all
      from "2.IH"(1)[OF True None this rest] True None show ?thesis by simp
    next
      case (Some baseIdx)
      show ?thesis
      proof (cases "Kind (info (rc ! (baseIdx + 1))) = MappingNode
                      \<and> Kind (info overlayValue) = MappingNode")
        case both: True
        have "list_all pairedTree (rc[baseIdx + 1 := mergeNonNil (rc ! (baseIdx + 1)) overlayValue])"
        proof (rule list_all_update[OF "2.prems"(1)])
          assume "baseIdx + 1 < length rc"
          with "2.prems"(1) have "pairedTree (rc ! (baseIdx + 1))"
            by (simp add: list_all_length)
          from "2.IH"(2)[OF True Some both this ov]
          show "pairedTree (mergeNonNil (rc ! (baseIdx + 1)) overlayValue)" .
        qed
        moreover have "even (length (rc[baseIdx + 1 := mergeNonNil (rc ! (baseIdx + 1)) overlayValue]))"
          using "2.prems"(2) by simp
        ultimately show ?thesis
          using "2.IH"(3)[OF True Some both _ _ rest] True Some both by simp
      next
        case notboth: False
        have "list_all pairedTree (rc[baseIdx := overlayKeyComments (rc ! baseIdx) overlayKey])"
          by (rule list_all_update[OF "2.prems"(1)])
             (use "2.prems"(1) in \<open>simp add: list_all_length\<close>)
        then have "list_all pairedTree (rc[baseIdx := overlayKeyComments (rc ! baseIdx) overlayKey,
                      baseIdx + 1 := Clone overlayValue])"
          by (rule list_all_update) (simp add: ov)
        moreover have "even (length (rc[baseIdx := overlayKeyComments (rc ! baseIdx) overlayKey,
                      baseIdx + 1 := Clone overlayValue]))"
          using "2.prems"(2) by simp
        ultimately show ?thesis
          using "2.IH"(4)[OF True Some notboth _ _ rest] True Some notboth by auto
      qed
    qed
  qed
next
  case (3 bk rc)
  then show ?case by simp
next
  case (4 bk rc overlayKey)
  then show ?case by simp
qed

lemma pairedTree_literalNullKey [simp]: "pairedTree (literalNullKey y k) = pairedTree k"
  by (simp add: literalNullKey_def pairedTree_alt[of k])

lemma convert_paired: "pairedTree (ConvertFromYAMLNode ext y)"
proof (induction ext y rule: ConvertFromYAMLNode.induct)
  case (1 ext yamlNode)
  let ?k = "convertKind (YKindOf (yinfo yamlNode))"
  show ?case
  proof (cases "?k = MappingNode")
    case True
    have len: "length (concat (map (\<lambda>kv. [f kv, g kv]) ps)) = 2 * length ps"
      for f g :: "ynode \<times> ynode \<Rightarrow> node" and ps
      by (induction ps) auto
    have all: "list_all pairedTree (concat (map (\<lambda>kv. [literalNullKey (fst kv) (ConvertFromYAMLNode ext (fst kv)),
                             ConvertFromYAMLNode ext (snd kv)]) (kv_pairs (YContent yamlNode))))"
      using "1.IH"(1,2)[OF True] by (auto simp: list_all_iff)
    show ?thesis
      by (subst ConvertFromYAMLNode.simps) (simp add: True len all)
  next
    case False
    show ?thesis
    proof (cases "?k = SequenceNode \<or> ?k = DocumentNode")
      case seq: True
      have "list_all pairedTree (map (ConvertFromYAMLNode ext) (YContent yamlNode))"
        using "1.IH"(3)[OF False seq] by (auto simp: list_all_iff)
      then show ?thesis
        using False seq by (subst ConvertFromYAMLNode.simps) (auto simp: convertInfo_def)
    next
      case nochild: False
      then show ?thesis
        using False by (subst ConvertFromYAMLNode.simps) (auto simp: convertInfo_def)
    qed
  qed
qed


subsection \<open>The invariant under the operations that build or change a Mapping\<close>

lemma MergeNodes_paired:
  "pairedOpt base \<Longrightarrow> pairedOpt overlay \<Longrightarrow> pairedOpt (MergeNodes base overlay)"
  by (auto simp: pairedOpt_def MergeNodes_def merge_paired(1) split: option.splits)

text \<open>
  Claim C5, amended. Let every Mapping node of the store \<open>h\<close>, and of the trees \<open>base\<close> and
  \<open>overlay\<close> (each of which may be nil), have an even number of children. Then the same holds

  \<^item> in the store after \<^verbatim>\<open>n.AddKeyValue(key, value)\<close>, for any node, key and value, nil or not;
  \<^item> in the store after \<^verbatim>\<open>m.ReplaceWith(replacement)\<close>;
  \<^item> in the store after the transforms \<^verbatim>\<open>removeKey\<close>, \<^verbatim>\<open>renameKey\<close> and \<^verbatim>\<open>sortKeys\<close> ran on a
    node, each of which returns that node and no error;
  \<^item> in the store after \<^verbatim>\<open>flatten\<close>, whenever its recursion returns;
  \<^item> in \<^verbatim>\<open>MergeNodes(base, overlay)\<close>;
  \<^item> in \<^verbatim>\<open>ConvertFromYAMLNode(y)\<close> for every node \<open>y\<close> of the reader, also one whose Mapping
    has an odd number of children.

  \<^verbatim>\<open>Remove\<close> is not in the list: it is the counterexample at the end of this section.
\<close>

theorem mapping_pairs_preserved:
  assumes "pairedStore h" and "pairedOpt base" and "pairedOpt overlay"
  shows "pairedStore (fst (AddKeyValue h n key valueNode))
       \<and> pairedStore (fst (ReplaceWith h m replacement))
       \<and> (\<forall>t \<in> {RemoveKey k, RenameKey oldKey newKey, SortKeys}.
             \<exists>h'. operation rng fuel t h node = Some (h', Inr (Some node)) \<and> pairedStore h')
       \<and> (\<forall>h' r. operation rng fuel Flatten h node = Some (h', r) \<longrightarrow> pairedStore h')
       \<and> pairedOpt (MergeNodes base overlay)
       \<and> pairedTree (ConvertFromYAMLNode ext y)"
proof -
  have ops: "\<exists>h'. operation rng fuel t h node = Some (h', Inr (Some node)) \<and> pairedStore h'"
    if t: "t = RemoveKey k \<or> t = RenameKey oldKey newKey \<or> t = SortKeys" for t
  proof -
    obtain h' where r: "operation rng fuel t h node = Some (h', Inr (Some node))"
      using t by auto
    from t have "t = RemoveKey k \<or> t = RenameKey oldKey newKey \<or> t = SortKeys \<or> t = Flatten"
      by blast
    from operation_paired[OF assms(1) this r] r show ?thesis by blast
  qed
  have flat: "pairedStore h'" if "operation rng fuel Flatten h node = Some (h', r)" for h' r
    by (rule operation_paired[OF assms(1) _ that, of k oldKey newKey]) simp
  show ?thesis
    using AddKeyValue_paired[OF assms(1)] ReplaceWith_paired[OF assms(1)] ops flat
      MergeNodes_paired[OF assms(2,3)] convert_paired
    by blast
qed

text \<open>The store \<open>one_pair\<close>, written out.\<close>

lemma one_pair_store:
  "one_pair =
     [(newHNode MappingNode)\<lparr>Children := [1, 2]\<rparr>,
      (newHNode ScalarNode)\<lparr>Value := VStr ''key'', Parent := Some 0\<rparr>,
      (newHNode ScalarNode)\<lparr>Value := VStr ''value'', Parent := Some 0, Key := Some 1\<rparr>,
      (newHNode ScalarNode)\<lparr>Value := VStr ''other''\<rparr>]"
  by (simp add: one_pair_def NewNode_st_def NewScalarNode_st_def AddKeyValue_def upd_def
      newHNode_def)

text \<open>
  The theorem at \<open>one_pair\<close>: another pair is added to the Mapping, the value is replaced by
  the Scalar at address 3, the key \<^verbatim>\<open>key\<close> is removed, the Mapping is flattened into a new
  Mapping at address 4, \<^verbatim>\<open>{a: 1}\<close> is merged with \<^verbatim>\<open>{b: 2}\<close>, and a Mapping of the reader with
  three children is converted.
\<close>

theorem mapping_pairs_preserved_witness:
  "pairedStore one_pair
   \<and> length (Children (fst (AddKeyValue one_pair 0 (Some 3) (Some 3)) ! 0)) = 4
   \<and> pairedStore (fst (AddKeyValue one_pair 0 (Some 3) (Some 3)))
   \<and> Children (fst (ReplaceWith one_pair 2 3) ! 0) = [1, 3]
   \<and> pairedStore (fst (ReplaceWith one_pair 2 3))
   \<and> (\<exists>h'. operation id 2 (RemoveKey ''key'') one_pair 0 = Some (h', Inr (Some 0))
            \<and> Children (h' ! 0) = [] \<and> pairedStore h')
   \<and> (\<exists>h'. operation id 2 Flatten one_pair 0 = Some (h', Inr (Some 4))
            \<and> length (Children (h' ! 4)) = 2 \<and> pairedStore h')
   \<and> pairedOpt (MergeNodes (Some (mapping_of [scalar_str ''a'', scalar_int 1]))
                  (Some (mapping_of [scalar_str ''b'', scalar_int 2])))
   \<and> pairedTree (ConvertFromYAMLNode no_floats
        (ymapping [yscalar ''a'', yscalar ''1'', yscalar ''odd'']))"
proof -
  have p: "pairedStore one_pair"
    by (simp add: one_pair_store pairedStore_def pairedNode_def newHNode_def)
  have b: "pairedOpt (Some (mapping_of [scalar_str ''a'', scalar_int 1]))"
    by (simp add: pairedOpt_def mapping_of_def scalar_str_def scalar_int_def NewScalarNode_def
        NewNodeInfo_def)
  have ov: "pairedOpt (Some (mapping_of [scalar_str ''b'', scalar_int 2]))"
    by (simp add: pairedOpt_def mapping_of_def scalar_str_def scalar_int_def NewScalarNode_def
        NewNodeInfo_def)
  note t = mapping_pairs_preserved[where h = one_pair and n = 0 and key = "Some 3"
      and valueNode = "Some 3" and m = 2 and replacement = 3 and k = "''key''" and node = 0
      and rng = id and fuel = 2 and ext = no_floats
      and y = "ymapping [yscalar ''a'', yscalar ''1'', yscalar ''odd'']", OF p b ov]
  have a1: "length (Children (fst (AddKeyValue one_pair 0 (Some 3) (Some 3)) ! 0)) = 4"
    by (simp add: one_pair_store AddKeyValue_def upd_def newHNode_def)
  have r1: "Children (fst (ReplaceWith one_pair 2 3) ! 0) = [1, 3]"
    by (simp add: one_pair_store ReplaceWith_def upd_def newHNode_def)
  have k1: "\<And>h'. operation id 2 (RemoveKey ''key'') one_pair 0 = Some (h', Inr (Some 0))
             \<Longrightarrow> Children (h' ! 0) = []"
    by (auto simp: one_pair_store upd_def newHNode_def)
  have f1: "\<exists>h'. operation id 2 Flatten one_pair 0 = Some (h', Inr (Some 4))
             \<and> length (Children (h' ! 4)) = 2"
    by (simp add: one_pair_store upd_def newHNode_def NewNode_st_def NewScalarNode_st_def
        AddKeyValue_def numeral_2_eq_2)
  from t have k2: "\<exists>h'. operation id 2 (RemoveKey ''key'') one_pair 0 = Some (h', Inr (Some 0))
             \<and> pairedStore h'" by blast
  from t have f2: "\<forall>h' r. operation id 2 Flatten one_pair 0 = Some (h', r) \<longrightarrow> pairedStore h'"
    by blast
  show ?thesis
    using p a1 r1 k1 k2 f1 f2 t by blast
qed

text \<open>
  Counterexample to claim C5 as stated. \<^verbatim>\<open>value.Remove()\<close> on the value of the only pair of a
  Mapping returns no error and takes that one node out of the children of its parent: the
  Mapping is left with the key alone, one child. The test \<^verbatim>\<open>RemoveFromMapping\<close> of the
  repository expects exactly this length.
\<close>

theorem remove_leaves_odd_mapping:
  "pairedStore one_pair
   \<and> snd (Remove one_pair 2) = None
   \<and> Kind (fst (Remove one_pair 2) ! 0) = MappingNode
   \<and> Children (fst (Remove one_pair 2) ! 0) = [1]
   \<and> \<not> pairedStore (fst (Remove one_pair 2))"
  by (simp add: one_pair_store Remove_def upd_def newHNode_def pairedStore_def pairedNode_def)

end
